theory Spec2Isabelle
  imports Complex_Main "HOL-Library.Multiset"
begin

section \<open>The pick-and-select core of SceneContainer.vue\<close>

text \<open>
  The component keeps its scene, camera, renderer, raycaster, pointer sample and selection in
  variables of its setup scope and reacts to callbacks: the mounted and unmounted hooks,
  window resize, window mousemove, window click and animation frames. The model below passes
  that state explicitly. Of the rendering set-up (background, shadow map, damping of the
  controls, the canvas in the document) it keeps what a pick can depend on: the objects of
  the scene with their placement and \<open>userData\<close>, the camera and the size of the renderer.

  A JavaScript number is a double. The values are modelled as reals, and every arithmetic
  operation of the source rounds its exact result with the rounding function \<open>fl\<close> of the
  engine, a parameter: nothing is proved that depends on a result being exact. The one
  operation of the source that leaves the finite numbers is division (by a zero width,
  height or window height), so a number that a division produced is a \<open>jsnum\<close>:
  \<open>None\<close> stands for the non-finite results (NaN and the infinities) of dividing by zero.
  A decimal literal of the source is written as the decimal it is; the component only copies
  and compares these values.

  three.js is not part of the repository. What the component needs from it is taken as a
  parameter: how a ray is derived from a pointer sample and a camera, and at which distances
  a ray meets one object. How \<open>intersectObjects\<close> combines these hits is written out:
  every object is tested in order, the hits are collected and then sorted by ascending
  distance with the (stable) array sort. The record \<open>host\<close> holds both parameters.
\<close>

subsection \<open>Values\<close>

type_synonym jsnum = "real option"

type_synonym jsstring = "nat list"
  \<comment> \<open>UTF-16 code units; the labels of the objects contain Japanese characters\<close>

definition ascii :: "string \<Rightarrow> jsstring" where
  "ascii s = map of_char s"

type_synonym vec3 = "real \<times> real \<times> real"
type_synonym vec2 = "jsnum \<times> jsnum"
type_synonym quat = "real \<times> real \<times> real \<times> real"

definition jsdiv :: "(real \<Rightarrow> real) \<Rightarrow> real \<Rightarrow> real \<Rightarrow> jsnum" where
  "jsdiv rnd a b = (if b = 0 then None else Some (rnd (a / b)))"

datatype jsval = JStr jsstring | JNum real | JBool bool | JArr "real list"

type_synonym jsobject = "(string \<times> jsval) list"
  \<comment> \<open>a plain object: its own properties in insertion order\<close>

fun truthy :: "jsval \<Rightarrow> bool" where
  "truthy (JStr s) = (s \<noteq> [])"
| "truthy (JNum n) = (n \<noteq> 0)"
| "truthy (JBool b) = b"
| "truthy (JArr xs) = True"

subsection \<open>The data of the source\<close>

datatype shape = TBox | TSphere

record InteractableObject =
  obj_id :: jsstring
  obj_name :: jsstring
  obj_translation :: jsstring
  obj_type :: shape
  obj_position :: vec3
  obj_color :: nat
  obj_scale :: "vec3 option"

datatype side = FrontSide | DoubleSide

datatype geometry =
    PlaneGeometry real real
  | BoxGeometry real real real
  | SphereGeometry real nat nat

record material =
  color :: nat
  mat_side :: side

datatype object_kind =
    AmbientLight nat real
  | DirectionalLight nat real
  | Mesh geometry material

record object3d =
  kind :: object_kind
  position :: vec3
  rotation :: vec3
  scale :: vec3
  castShadow :: bool
  receiveShadow :: bool
  userData :: "jsobject option"
    \<comment> \<open>\<open>None\<close> is null or undefined; a fresh object has \<open>Some []\<close>, the empty object\<close>

definition object3d_default :: "object_kind \<Rightarrow> object3d" where
  "object3d_default k =
     \<lparr>kind = k, position = (0, 0, 0), rotation = (0, 0, 0), scale = (1, 1, 1),
      castShadow = False, receiveShadow = False, userData = Some []\<rparr>"

record PerspectiveCamera =
  fov :: real
  aspect :: jsnum
  near :: real
  far :: real
  cam_position :: vec3
  quaternion :: quat
  projection :: "real \<times> jsnum \<times> real \<times> real"
    \<comment> \<open>the parameters the projection matrix was last computed from\<close>

definition updateProjectionMatrix :: "PerspectiveCamera \<Rightarrow> PerspectiveCamera" where
  "updateProjectionMatrix c = c\<lparr>projection := (fov c, aspect c, near c, far c)\<rparr>"

definition new_PerspectiveCamera :: "real \<Rightarrow> jsnum \<Rightarrow> real \<Rightarrow> real \<Rightarrow> PerspectiveCamera" where
  "new_PerspectiveCamera f a n fr =
     updateProjectionMatrix
       \<lparr>fov = f, aspect = a, near = n, far = fr, cam_position = (0, 0, 0),
        quaternion = (0, 0, 0, 1), projection = (f, a, n, fr)\<rparr>"

record 'r Raycaster =
  ray :: 'r
  rc_camera :: "PerspectiveCamera option"

record intersection =
  distance :: real
  object :: object3d

text \<open>What the component relies on and the repository does not contain, as a parameter:
  the part of three.js it calls, and the rounding of the engine's double arithmetic.\<close>

record 'r host =
  default_ray :: 'r
  unproject :: "vec2 \<Rightarrow> PerspectiveCamera \<Rightarrow> 'r"
  raycast :: "'r Raycaster \<Rightarrow> object3d \<Rightarrow> real list"
  fl :: "real \<Rightarrow> real"

definition new_Raycaster :: "'r host \<Rightarrow> 'r Raycaster" where
  "new_Raycaster T = \<lparr>ray = default_ray T, rc_camera = None\<rparr>"

definition setFromCamera ::
  "'r host \<Rightarrow> vec2 \<Rightarrow> PerspectiveCamera \<Rightarrow> 'r Raycaster \<Rightarrow> 'r Raycaster" where
  "setFromCamera T coords cam rc = rc\<lparr>ray := unproject T coords cam, rc_camera := Some cam\<rparr>"

definition intersectObject :: "'r host \<Rightarrow> 'r Raycaster \<Rightarrow> object3d \<Rightarrow> intersection list" where
  "intersectObject T rc ob = map (\<lambda>d. \<lparr>distance = d, object = ob\<rparr>) (raycast T rc ob)"

text \<open>
  \<open>intersectObjects\<close> returns the sorted hits together with the objects it ran an
  intersection test against, in test order. No object of this scene has children, so the
  recursive descent of three.js visits exactly the objects of the list.
\<close>

definition intersectObjects ::
  "'r host \<Rightarrow> 'r Raycaster \<Rightarrow> object3d list \<Rightarrow> intersection list \<times> object3d list" where
  "intersectObjects T rc objs =
     (sort_key distance (concat (map (intersectObject T rc) objs)), objs)"

subsection \<open>The room and the objects\<close>

text \<open>\<open>Math.PI\<close> is the double nearest to the number pi; halving and negating it are exact.\<close>

definition Math_PI :: real where
  "Math_PI = 884279719003555 / 281474976710656"

definition floor_mesh :: object3d where
  "floor_mesh =
     (object3d_default (Mesh (PlaneGeometry 10 10) \<lparr>color = 0xeeeeee, mat_side = DoubleSide\<rparr>))
       \<lparr>rotation := (- Math_PI / 2, 0, 0), receiveShadow := True\<rparr>"

definition wallMat :: material where
  "wallMat = \<lparr>color = 0xffffff, mat_side = DoubleSide\<rparr>"

definition backWall :: object3d where
  "backWall =
     (object3d_default (Mesh (PlaneGeometry 10 5) wallMat))
       \<lparr>position := (0, 2.5, -5), receiveShadow := True\<rparr>"

definition leftWall :: object3d where
  "leftWall =
     (object3d_default (Mesh (PlaneGeometry 10 5) wallMat))
       \<lparr>rotation := (0, Math_PI / 2, 0), position := (-5, 2.5, 0), receiveShadow := True\<rparr>"

definition createRoom :: "object3d list \<Rightarrow> object3d list" where
  "createRoom children = children @ [floor_mesh] @ [backWall] @ [leftWall]"

definition objectsData :: "InteractableObject list" where
  "objectsData =
    [\<lparr>obj_id = ascii ''table'', obj_name = ascii ''Table'',
      obj_translation = 0x673A # ascii '' (Tsukue)'', obj_type = TBox,
      obj_position = (0, 0.75, 0), obj_color = 0x8B4513, obj_scale = Some (2, 1.5, 1.5)\<rparr>,
     \<lparr>obj_id = ascii ''chair'', obj_name = ascii ''Chair'',
      obj_translation = 0x6905 # 0x5B50 # ascii '' (Isu)'', obj_type = TBox,
      obj_position = (0, 0.5, 1.5), obj_color = 0xA0522D, obj_scale = Some (0.8, 1, 0.8)\<rparr>,
     \<lparr>obj_id = ascii ''lamp'', obj_name = ascii ''Lamp'',
      obj_translation = 0x30E9 # 0x30F3 # 0x30D7 # ascii '' (Ranpu)'', obj_type = TSphere,
      obj_position = (1.2, 1.8, -0.2), obj_color = 0xFFFFE0, obj_scale = Some (0.3, 0.3, 0.3)\<rparr>,
     \<lparr>obj_id = ascii ''plant'', obj_name = ascii ''Plant'',
      obj_translation = 0x690D # 0x7269 # ascii '' (Shokubutsu)'', obj_type = TBox,
      obj_position = (-2, 0.5, -2), obj_color = 0x228B22, obj_scale = Some (0.5, 1, 0.5)\<rparr>]"

definition vec3_array :: "vec3 \<Rightarrow> jsval" where
  "vec3_array v = (case v of (a, b, c) \<Rightarrow> JArr [a, b, c])"

text \<open>The object spread \<open>{ ...obj }\<close>: the own properties of the template, in order.\<close>

definition spread :: "InteractableObject \<Rightarrow> jsobject" where
  "spread obj =
     [(''id'', JStr (obj_id obj)), (''name'', JStr (obj_name obj)),
      (''translation'', JStr (obj_translation obj)),
      (''type'', JStr (case obj_type obj of TBox \<Rightarrow> ascii ''box'' | TSphere \<Rightarrow> ascii ''sphere'')),
      (''position'', vec3_array (obj_position obj)),
      (''color'', JNum (real (obj_color obj)))]
     @ (case obj_scale obj of None \<Rightarrow> [] | Some sc \<Rightarrow> [(''scale'', vec3_array sc)])"

definition mesh_userData :: "InteractableObject \<Rightarrow> jsobject" where
  "mesh_userData obj = spread obj @ [(''isInteractable'', JBool True)]"

definition populate_mesh :: "InteractableObject \<Rightarrow> object3d" where
  "populate_mesh obj =
     (let geometry = (if obj_type obj = TBox then BoxGeometry 1 1 1 else SphereGeometry 1 32 32);
          mesh = object3d_default (Mesh geometry \<lparr>color = obj_color obj, mat_side = FrontSide\<rparr>);
          mesh = mesh\<lparr>position := obj_position obj\<rparr>;
          mesh = (case obj_scale obj of Some sc \<Rightarrow> mesh\<lparr>scale := sc\<rparr> | None \<Rightarrow> mesh)
      in mesh\<lparr>castShadow := True, receiveShadow := True, userData := Some (mesh_userData obj)\<rparr>)"

definition populateObjects :: "object3d list \<Rightarrow> object3d list" where
  "populateObjects children = foldl (\<lambda>ch obj. ch @ [populate_mesh obj]) children objectsData"

subsection \<open>Component state\<close>

record rect =
  rect_left :: real
  rect_top :: real
  rect_width :: real
  rect_height :: real

type_synonym pose = "vec3 \<times> quat"
  \<comment> \<open>position and orientation that OrbitControls gives the camera in \<open>controls.update()\<close>\<close>

record 'r state =
  container :: bool
    \<comment> \<open>whether the template ref \<open>container.value\<close> holds the element\<close>
  scene :: "object3d list option"
    \<comment> \<open>\<open>scene.children\<close>; \<open>None\<close> while \<open>scene\<close> is unassigned\<close>
  camera :: "PerspectiveCamera option"
  renderer :: "(real \<times> real) option"
    \<comment> \<open>the renderer, with the size last given to \<open>setSize\<close>\<close>
  animating :: bool
  raycaster :: "'r Raycaster"
  mouse :: vec2
  selectedObject :: "jsobject option"
  cursor :: string
  listening :: bool
    \<comment> \<open>whether the resize, mousemove and click listeners are registered\<close>

datatype error = TypeError

datatype ('a, 'r) outcome = Returned 'a "'r state" | Threw error "'r state"

fun after :: "('a, 'r) outcome \<Rightarrow> 'r state" where
  "after (Returned v s) = s"
| "after (Threw e s) = s"

fun threw :: "('a, 'r) outcome \<Rightarrow> bool" where
  "threw (Returned v s) = False"
| "threw (Threw e s) = True"

definition state0 :: "'r host \<Rightarrow> 'r state" where
  "state0 T =
     \<lparr>container = False, scene = None, camera = None, renderer = None, animating = False,
      raycaster = new_Raycaster T, mouse = (Some 0, Some 0), selectedObject = None,
      cursor = [], listening = False\<rparr>"

subsection \<open>initScene, animate, handleResize\<close>

definition ambientLight :: object3d where
  "ambientLight = object3d_default (AmbientLight 0xffffff 0.5)"

definition directionalLight :: object3d where
  "directionalLight =
     (object3d_default (DirectionalLight 0xffffff 0.8))\<lparr>position := (5, 10, 7), castShadow := True\<rparr>"

text \<open>
  \<open>animate\<close> requests the next frame, lets OrbitControls move the camera and renders. It runs
  only once \<open>initScene\<close> has assigned the camera and the controls. Rendering brings every
  world matrix up to date, so a pick always sees the objects where the scene placed them.
\<close>

definition animate :: "pose \<Rightarrow> 'r state \<Rightarrow> 'r state" where
  "animate p s =
     s\<lparr>animating := True,
       camera := map_option (\<lambda>c. c\<lparr>cam_position := fst p, quaternion := snd p\<rparr>) (camera s)\<rparr>"

definition initScene :: "'r host \<Rightarrow> real \<Rightarrow> real \<Rightarrow> pose \<Rightarrow> 'r state \<Rightarrow> 'r state" where
  "initScene T innerWidth innerHeight p s =
     (if \<not> container s then s
      else
        let cam = (new_PerspectiveCamera 75 (jsdiv (fl T) innerWidth innerHeight) 0.1 1000)
                    \<lparr>cam_position := (0, 2, 5)\<rparr>;
            children = [] @ [ambientLight] @ [directionalLight];
            children = createRoom children;
            children = populateObjects children
        in animate p (s\<lparr>scene := Some children, camera := Some cam,
                        renderer := Some (innerWidth, innerHeight)\<rparr>))"

definition handleResize :: "'r host \<Rightarrow> real \<Rightarrow> real \<Rightarrow> 'r state \<Rightarrow> 'r state" where
  "handleResize T innerWidth innerHeight s =
     (case (camera s, renderer s) of
        (Some cam, Some r) \<Rightarrow>
          s\<lparr>camera := Some (updateProjectionMatrix (cam\<lparr>aspect := jsdiv (fl T) innerWidth innerHeight\<rparr>)),
            renderer := Some (innerWidth, innerHeight)\<rparr>
      | _ \<Rightarrow> s)"

subsection \<open>Picking: getIntersects, checkIntersection, onPointerMove, onClick\<close>

text \<open>The test of the filter callback, \<open>intersect.object.userData?.isInteractable\<close>,
  as a property of the object.\<close>

definition isInteractable :: "object3d \<Rightarrow> bool" where
  "isInteractable ob =
     (case userData ob of
        None \<Rightarrow> False
      | Some ud \<Rightarrow> (case map_of ud ''isInteractable'' of None \<Rightarrow> False | Some v \<Rightarrow> truthy v))"

text \<open>
  \<open>getIntersects\<close> returns the filtered hits and the objects that were tested.
  \<open>setFromCamera\<close> reads a property of the camera first, which throws on an unassigned one.
\<close>

definition getIntersects :: "'r host \<Rightarrow> 'r state \<Rightarrow> (intersection list \<times> object3d list, 'r) outcome" where
  "getIntersects T s =
     (case camera s of
        None \<Rightarrow> Threw TypeError s
      | Some cam \<Rightarrow>
          let rc = setFromCamera T (mouse s) cam (raycaster s);
              s1 = s\<lparr>raycaster := rc\<rparr>
          in (case scene s of
                None \<Rightarrow> Threw TypeError s1
              | Some children \<Rightarrow>
                  let (intersects, tested) = intersectObjects T rc children
                  in Returned (filter (\<lambda>intersect. isInteractable (object intersect)) intersects,
                               tested) s1))"

definition checkIntersection :: "'r host \<Rightarrow> 'r state \<Rightarrow> (unit, 'r) outcome" where
  "checkIntersection T s =
     (case getIntersects T s of
        Threw e s1 \<Rightarrow> Threw e s1
      | Returned (intersects, tested) s1 \<Rightarrow>
          if length intersects > 0 then Returned () (s1\<lparr>cursor := ''pointer''\<rparr>)
          else Returned () (s1\<lparr>cursor := ''default''\<rparr>))"

text \<open>The two assignments to \<open>mouse\<close>. Each of the four operations of either line (a
  difference, a quotient, a product, a sum or difference) rounds; the negation is exact.\<close>

definition toNormalizedCoordinates :: "'r host \<Rightarrow> real \<Rightarrow> real \<Rightarrow> rect \<Rightarrow> vec2" where
  "toNormalizedCoordinates T clientX clientY r =
     (map_option (\<lambda>q. fl T (fl T (q * 2) - 1))
        (jsdiv (fl T) (fl T (clientX - rect_left r)) (rect_width r)),
      map_option (\<lambda>q. fl T (fl T (- q * 2) + 1))
        (jsdiv (fl T) (fl T (clientY - rect_top r)) (rect_height r)))"

definition onPointerMove :: "'r host \<Rightarrow> real \<Rightarrow> real \<Rightarrow> rect \<Rightarrow> 'r state \<Rightarrow> (unit, 'r) outcome" where
  "onPointerMove T clientX clientY r s =
     (if \<not> container s then Returned () s
      else checkIntersection T (s\<lparr>mouse := toNormalizedCoordinates T clientX clientY r\<rparr>))"

definition onClick :: "'r host \<Rightarrow> 'r state \<Rightarrow> (unit, 'r) outcome" where
  "onClick T s =
     (case getIntersects T s of
        Threw e s1 \<Rightarrow> Threw e s1
      | Returned (intersects, tested) s1 \<Rightarrow>
          (case intersects of
             intersect # rest \<Rightarrow>
               (if userData (object intersect) \<noteq> None
                then Returned () (s1\<lparr>selectedObject := userData (object intersect)\<rparr>)
                else Returned () s1)
           | [] \<Rightarrow> Returned () (s1\<lparr>selectedObject := None\<rparr>)))"

subsection \<open>Lifecycle and events\<close>

definition onMounted :: "'r host \<Rightarrow> real \<Rightarrow> real \<Rightarrow> pose \<Rightarrow> 'r state \<Rightarrow> 'r state" where
  "onMounted T innerWidth innerHeight p s =
     (initScene T innerWidth innerHeight p s)\<lparr>listening := True\<rparr>"

definition onUnmounted :: "'r state \<Rightarrow> (unit, 'r) outcome" where
  "onUnmounted s =
     (let s1 = s\<lparr>listening := False, animating := False\<rparr>
      in if renderer s1 = None then Threw TypeError s1 else Returned () s1)"

text \<open>
  What the host delivers. A mousemove carries the pointer position and the bounding rectangle
  the container has at that moment, and so does a click; mount and resize
  carry the window size; a frame carries the camera pose computed by OrbitControls.
  \<open>Mounted b\<close> says whether the framework had bound the template ref when it ran the hook.
\<close>

datatype event =
    Mounted bool real real pose
  | Unmounted
  | Resize real real
  | MouseMove real real rect
  | Click real real rect
  | Frame pose

fun step :: "'r host \<Rightarrow> event \<Rightarrow> 'r state \<Rightarrow> (unit, 'r) outcome" where
  "step T (Mounted b w h p) s = Returned () (onMounted T w h p (s\<lparr>container := b\<rparr>))"
| "step T Unmounted s = onUnmounted (s\<lparr>container := False\<rparr>)"
| "step T (Resize w h) s = (if listening s then Returned () (handleResize T w h s) else Returned () s)"
| "step T (MouseMove clientX clientY r) s =
     (if listening s then onPointerMove T clientX clientY r s else Returned () s)"
| "step T (Click clientX clientY r) s = (if listening s then onClick T s else Returned () s)"
| "step T (Frame p) s = (if animating s then Returned () (animate p s) else Returned () s)"

text \<open>An uncaught exception ends the callback, not the page: the next event finds the state
  the failed callback left.\<close>

definition run :: "'r host \<Rightarrow> event list \<Rightarrow> 'r state \<Rightarrow> 'r state" where
  "run T evs s = foldl (\<lambda>s ev. after (step T ev s)) s evs"

subsection \<open>A raycaster for rays parallel to the z axis\<close>

text \<open>
  One instance of the parameter, used to run the component on concrete inputs. Its
  arithmetic is exact, which is what every rounding gives on the inputs of the concrete runs
  below: their quotients and samples are dyadic numbers of a few bits. The
  ray starts at the camera position displaced by the pointer sample and runs along the z axis,
  away from the viewer (towards negative z) unless the camera is turned half a turn about the
  y axis. The hit distances are those of the front face of an unrotated box, of an unrotated
  plane and of an unrotated sphere (an ellipsoid once scaled). A rotated mesh gets no hit:
  the two rotated planes of the room, floor and left wall, lie along every such ray (up to
  the rounding of \<open>Math.PI\<close>).
  A non-finite pointer sample gives a ray that meets nothing.
\<close>

type_synonym zray = "(vec3 \<times> real) option"

definition z_unproject :: "vec2 \<Rightarrow> PerspectiveCamera \<Rightarrow> zray" where
  "z_unproject coords cam =
     (case coords of
        (Some u, Some v) \<Rightarrow>
          (case cam_position cam of
             (px, py, pz) \<Rightarrow>
               Some ((px + u, py + v, pz), if quaternion cam = (0, 1, 0, 0) then 1 else - 1))
      | _ \<Rightarrow> None)"

definition z_hits :: "vec3 \<Rightarrow> real \<Rightarrow> geometry \<Rightarrow> side \<Rightarrow> vec3 \<Rightarrow> vec3 \<Rightarrow> real list" where
  "z_hits origin dz g sd pos sc =
     (case (origin, pos, sc) of
        ((ox, oy, oz), (px, py, pz), (sx, sy, sz)) \<Rightarrow>
          (case g of
             PlaneGeometry w h \<Rightarrow>
               if \<bar>ox - px\<bar> \<le> w * sx / 2 \<and> \<bar>oy - py\<bar> \<le> h * sy / 2 \<and> 0 \<le> (pz - oz) * dz
                  \<and> (sd = DoubleSide \<or> dz < 0)
               then [(pz - oz) * dz] else []
           | BoxGeometry w h d \<Rightarrow>
               if \<bar>ox - px\<bar> \<le> w * sx / 2 \<and> \<bar>oy - py\<bar> \<le> h * sy / 2
                  \<and> 0 \<le> (pz - dz * (d * sz / 2) - oz) * dz
               then [(pz - dz * (d * sz / 2) - oz) * dz] else []
           | SphereGeometry r ws hs \<Rightarrow>
               if ((ox - px) / (r * sx))\<^sup>2 + ((oy - py) / (r * sy))\<^sup>2 \<le> 1
                  \<and> 0 \<le> (pz - dz * (r * sz * sqrt (1 - ((ox - px) / (r * sx))\<^sup>2
                                                        - ((oy - py) / (r * sy))\<^sup>2)) - oz) * dz
               then [(pz - dz * (r * sz * sqrt (1 - ((ox - px) / (r * sx))\<^sup>2
                                                  - ((oy - py) / (r * sy))\<^sup>2)) - oz) * dz]
               else []))"

definition z_raycast :: "zray Raycaster \<Rightarrow> object3d \<Rightarrow> real list" where
  "z_raycast rc ob =
     (case ray rc of
        None \<Rightarrow> []
      | Some (origin, dz) \<Rightarrow>
          (case kind ob of
             Mesh g m \<Rightarrow>
               if rotation ob \<noteq> (0, 0, 0) then []
               else z_hits origin dz g (mat_side m) (position ob) (scale ob)
           | _ \<Rightarrow> []))"

definition z_host :: "zray host" where
  "z_host = \<lparr>default_ray = Some ((0, 0, 0), - 1), unproject = z_unproject, raycast = z_raycast,
              fl = (\<lambda>x. x)\<rparr>"

subsection \<open>Notions used to state the properties\<close>

fun returned :: "('a, 'r) outcome \<Rightarrow> 'a option" where
  "returned (Returned v s) = Some v"
| "returned (Threw e s) = None"

text \<open>Every property of the template can be read from the object, with the same value.\<close>

definition carries :: "jsobject \<Rightarrow> InteractableObject \<Rightarrow> bool" where
  "carries ud obj = list_all (\<lambda>(k, v). map_of ud k = Some v) (spread obj)"

text \<open>The children of the scene once \<open>initScene\<close> has run.\<close>

definition scene_children :: "object3d list" where
  "scene_children =
     [ambientLight, directionalLight, floor_mesh, backWall, leftWall] @ map populate_mesh objectsData"

text \<open>The pointer sample of the last mousemove of a trace; a fresh \<open>Vector2\<close> is (0, 0).\<close>

fun sample_of :: "'r host \<Rightarrow> vec2 \<Rightarrow> event \<Rightarrow> vec2" where
  "sample_of T m (MouseMove clientX clientY r) = toNormalizedCoordinates T clientX clientY r"
| "sample_of T m ev = m"

definition last_sample :: "'r host \<Rightarrow> event list \<Rightarrow> vec2" where
  "last_sample T evs = foldl (sample_of T) (Some 0, Some 0) evs"

text \<open>What the properties use of the rounding to the nearest double: it is monotone and it
  leaves the small integers unchanged.\<close>

definition rounding :: "(real \<Rightarrow> real) \<Rightarrow> bool" where
  "rounding rnd \<longleftrightarrow>
     mono rnd \<and> rnd 0 = 0 \<and> rnd 1 = 1 \<and> rnd 2 = 2 \<and> rnd (- 1) = - 1 \<and> rnd (- 2) = - 2"

fun lifecycle :: "event \<Rightarrow> bool" where
  "lifecycle (Mounted b w h p) = True"
| "lifecycle Unmounted = True"
| "lifecycle ev = False"

text \<open>The framework binds the template ref before it runs the mounted hook: the element
  is an unconditional part of the template.\<close>

fun mount_bound :: "event \<Rightarrow> bool" where
  "mount_bound (Mounted b w h p) = b"
| "mount_bound ev = True"

fun pointer_event :: "event \<Rightarrow> bool" where
  "pointer_event (MouseMove clientX clientY r) = True"
| "pointer_event (Click clientX clientY r) = True"
| "pointer_event (Resize w h) = True"
| "pointer_event ev = False"

text \<open>Inputs for concrete runs: a window of 1200 by 600 in which the container takes the
  left 800 pixels, a camera in front of the chair looking along the negative z axis, and one
  behind the back wall looking the other way.\<close>

definition rect0 :: rect where
  "rect0 = \<lparr>rect_left = 0, rect_top = 0, rect_width = 800, rect_height = 600\<rparr>"

definition front_view :: pose where
  "front_view = ((0, 0.5, 5), (0, 0, 0, 1))"

definition behind_wall_view :: pose where
  "behind_wall_view = ((- 2, 0.5, - 10), (0, 1, 0, 0))"

definition mounted_state :: "pose \<Rightarrow> zray state" where
  "mounted_state p = run z_host [Mounted True 1200 600 p] (state0 z_host)"

section \<open>Properties\<close>

subsection \<open>The pick as a function of pointer sample, camera and scene\<close>

lemma setFromCamera_fresh:
  "setFromCamera T coords cam rc = \<lparr>ray = unproject T coords cam, rc_camera = Some cam\<rparr>"
  by (simp add: setFromCamera_def)

lemma getIntersects_defined:
  assumes "camera s = Some cam" and "scene s = Some ch"
  shows "getIntersects T s =
           Returned (filter (\<lambda>i. isInteractable (object i))
                       (fst (intersectObjects T (setFromCamera T (mouse s) cam (raycaster s)) ch)), ch)
                    (s\<lparr>raycaster := setFromCamera T (mouse s) cam (raycaster s)\<rparr>)"
  using assms by (simp add: getIntersects_def intersectObjects_def Let_def)

lemma after_getIntersects:
  "after (getIntersects T s) = s \<or>
   (\<exists>cam. camera s = Some cam \<and>
      after (getIntersects T s) = s\<lparr>raycaster := setFromCamera T (mouse s) cam (raycaster s)\<rparr>)"
  by (auto simp: getIntersects_def Let_def split: option.splits prod.splits)

lemma object_intersectObjects:
  "i \<in> set (fst (intersectObjects T rc objs)) \<Longrightarrow> object i \<in> set objs"
  by (auto simp: intersectObjects_def intersectObject_def)

lemma filter_intersectObject:
  "filter (\<lambda>i. P (object i)) (intersectObject T rc ob) = (if P ob then intersectObject T rc ob else [])"
  by (induction "raycast T rc ob") (auto simp: intersectObject_def)

lemma filter_concat_intersectObject:
  "filter (\<lambda>i. P (object i)) (concat (map (intersectObject T rc) objs)) =
   concat (map (intersectObject T rc) (filter P objs))"
  by (induction objs) (simp_all add: filter_intersectObject)

lemma filter_after_is_filter_before:
  "filter (\<lambda>i. P (object i)) (fst (intersectObjects T rc objs)) =
   fst (intersectObjects T rc (filter P objs))"
  by (simp add: intersectObjects_def filter_sort filter_concat_intersectObject)

subsection \<open>Concrete runs\<close>

lemma fl_z_host [simp]: "fl z_host x = x"
  by (simp add: z_host_def)

lemma populateObjects_eq: "populateObjects ch = ch @ map populate_mesh objectsData"
  by (simp add: populateObjects_def objectsData_def)

lemma mounted_state_eq:
  "mounted_state p =
     \<lparr>container = True, scene = Some scene_children,
      camera = Some \<lparr>fov = 75, aspect = Some 2, near = 1 / 10, far = 1000,
                     cam_position = fst p, quaternion = snd p,
                     projection = (75, Some 2, 1 / 10, 1000)\<rparr>,
      renderer = Some (1200, 600), animating = True,
      raycaster = \<lparr>ray = Some ((0, 0, 0), - 1), rc_camera = None\<rparr>,
      mouse = (Some 0, Some 0), selectedObject = None, cursor = [], listening = True\<rparr>"
  by (simp add: mounted_state_def run_def onMounted_def initScene_def Let_def animate_def
      createRoom_def populateObjects_eq new_PerspectiveCamera_def updateProjectionMatrix_def
      state0_def new_Raycaster_def jsdiv_def scene_children_def)
    (simp add: z_host_def)

lemmas obj_defs = Math_PI_def populate_mesh_def mesh_userData_def spread_def object3d_default_def floor_mesh_def backWall_def leftWall_def wallMat_def ambientLight_def directionalLight_def vec3_array_def objectsData_def

lemmas z_defs = z_unproject_def z_raycast_def z_hits_def

lemma hits_front:
  "fst (intersectObjects z_host \<lparr>ray = Some ((0, 1 / 2, 5), - 1), rc_camera = c\<rparr> scene_children) =
     [\<lparr>distance = 31 / 10, object = populate_mesh (objectsData ! 1)\<rparr>,
      \<lparr>distance = 17 / 4, object = populate_mesh (objectsData ! 0)\<rparr>,
      \<lparr>distance = 10, object = backWall\<rparr>]"
  by (simp add: intersectObjects_def intersectObject_def scene_children_def z_host_def z_defs obj_defs Let_def power2_eq_square)

lemma hits_behind_wall:
  "fst (intersectObjects z_host \<lparr>ray = Some ((- 2, 1 / 2, - 10), 1), rc_camera = c\<rparr> scene_children) =
     [\<lparr>distance = 5, object = backWall\<rparr>,
      \<lparr>distance = 31 / 4, object = populate_mesh (objectsData ! 3)\<rparr>]"
  by (simp add: intersectObjects_def intersectObject_def scene_children_def z_host_def z_defs obj_defs Let_def power2_eq_square)

lemma hits_below:
  "fst (intersectObjects z_host \<lparr>ray = Some ((- 1, - (1 / 2), 5), - 1), rc_camera = c\<rparr> scene_children) = []"
  by (simp add: intersectObjects_def intersectObject_def scene_children_def z_host_def z_defs obj_defs Let_def power2_eq_square)

lemma isInteractable_populate_mesh [simp]: "isInteractable (populate_mesh obj)"
  by (simp add: isInteractable_def populate_mesh_def mesh_userData_def spread_def Let_def split: option.splits)

lemma not_isInteractable_room [simp]:
  "\<not> isInteractable floor_mesh" "\<not> isInteractable backWall" "\<not> isInteractable leftWall"
  "\<not> isInteractable ambientLight" "\<not> isInteractable directionalLight"
  by (simp_all add: isInteractable_def obj_defs)

lemma userData_populate_mesh [simp]: "userData (populate_mesh obj) = Some (mesh_userData obj)"
  by (simp add: populate_mesh_def Let_def split: option.splits)

lemma isInteractable_userData: "isInteractable ob \<Longrightarrow> userData ob \<noteq> None"
  by (auto simp: isInteractable_def split: option.splits)

lemma carries_mesh_userData: "carries (mesh_userData obj) obj"
  by (simp add: carries_def mesh_userData_def spread_def split: option.splits)

subsection \<open>Pointer sample, determinism, selection, filtering\<close>

lemma mouse_after_getIntersects [simp]: "mouse (after (getIntersects T s)) = mouse s"
  using after_getIntersects [of T s] by auto

lemma mouse_after_checkIntersection [simp]: "mouse (after (checkIntersection T s)) = mouse s"
proof (cases "getIntersects T s")
  case (Returned v s1)
  with mouse_after_getIntersects [of T s] show ?thesis
    by (cases v) (simp add: checkIntersection_def)
next
  case (Threw e s1)
  with mouse_after_getIntersects [of T s] show ?thesis
    by (simp add: checkIntersection_def)
qed

lemma ndc_x_props:
  assumes "rounding rnd" and "0 < w" and "rnd w = w"
  shows "l \<le> c \<Longrightarrow> c \<le> l + w \<Longrightarrow>
           - 1 \<le> rnd (rnd (rnd (rnd (c - l) / w) * 2) - 1)
           \<and> rnd (rnd (rnd (rnd (c - l) / w) * 2) - 1) \<le> 1"
    and "c = l \<Longrightarrow> rnd (rnd (rnd (rnd (c - l) / w) * 2) - 1) = - 1"
    and "c = l + w \<Longrightarrow> rnd (rnd (rnd (rnd (c - l) / w) * 2) - 1) = 1"
    and "c \<le> c' \<Longrightarrow>
           rnd (rnd (rnd (rnd (c - l) / w) * 2) - 1) \<le> rnd (rnd (rnd (rnd (c' - l) / w) * 2) - 1)"
proof -
  from assms(1) have m: "\<And>x y. x \<le> y \<Longrightarrow> rnd x \<le> rnd y"
    and c: "rnd 0 = 0" "rnd 1 = 1" "rnd 2 = 2" "rnd (- 1) = - 1"
    by (simp_all add: rounding_def mono_def)
  show "- 1 \<le> rnd (rnd (rnd (rnd (c - l) / w) * 2) - 1)
        \<and> rnd (rnd (rnd (rnd (c - l) / w) * 2) - 1) \<le> 1"
    if "l \<le> c" "c \<le> l + w"
  proof -
    have a: "0 \<le> rnd (c - l)" "rnd (c - l) \<le> w"
      using m [of 0 "c - l"] m [of "c - l" w] that c(1) assms(3) by simp_all
    then have "0 \<le> rnd (c - l) / w" "rnd (c - l) / w \<le> 1"
      using assms(2) by simp_all
    then have q: "0 \<le> rnd (rnd (c - l) / w)" "rnd (rnd (c - l) / w) \<le> 1"
      using m [of 0 "rnd (c - l) / w"] m [of "rnd (c - l) / w" 1] c by simp_all
    then have "0 \<le> rnd (rnd (c - l) / w) * 2" "rnd (rnd (c - l) / w) * 2 \<le> 2"
      by simp_all
    then have p: "0 \<le> rnd (rnd (rnd (c - l) / w) * 2)" "rnd (rnd (rnd (c - l) / w) * 2) \<le> 2"
      using m [of 0 "rnd (rnd (c - l) / w) * 2"] m [of "rnd (rnd (c - l) / w) * 2" 2] c by simp_all
    then have "- 1 \<le> rnd (rnd (rnd (c - l) / w) * 2) - 1" "rnd (rnd (rnd (c - l) / w) * 2) - 1 \<le> 1"
      by simp_all
    then show ?thesis
      using m [of "- 1" "rnd (rnd (rnd (c - l) / w) * 2) - 1"]
        m [of "rnd (rnd (rnd (c - l) / w) * 2) - 1" 1] c by simp
  qed
  show "rnd (rnd (rnd (rnd (c - l) / w) * 2) - 1) = - 1" if "c = l"
    using that c by simp
  show "rnd (rnd (rnd (rnd (c - l) / w) * 2) - 1) = 1" if "c = l + w"
    using that c assms(2,3) by simp
  show "rnd (rnd (rnd (rnd (c - l) / w) * 2) - 1) \<le> rnd (rnd (rnd (rnd (c' - l) / w) * 2) - 1)"
    if "c \<le> c'"
  proof -
    have "rnd (c - l) \<le> rnd (c' - l)" using that by (intro m) simp
    then have "rnd (c - l) / w \<le> rnd (c' - l) / w"
      using assms(2) by (simp add: divide_right_mono)
    then have "rnd (rnd (c - l) / w) \<le> rnd (rnd (c' - l) / w)" by (rule m)
    then have "rnd (rnd (c - l) / w) * 2 \<le> rnd (rnd (c' - l) / w) * 2" by simp
    then have "rnd (rnd (rnd (c - l) / w) * 2) \<le> rnd (rnd (rnd (c' - l) / w) * 2)" by (rule m)
    then show ?thesis by (intro m) simp
  qed
qed

lemma ndc_y_props:
  assumes "rounding rnd" and "0 < h" and "rnd h = h"
  shows "t \<le> c \<Longrightarrow> c \<le> t + h \<Longrightarrow>
           - 1 \<le> rnd (rnd (- rnd (rnd (c - t) / h) * 2) + 1)
           \<and> rnd (rnd (- rnd (rnd (c - t) / h) * 2) + 1) \<le> 1"
    and "c = t \<Longrightarrow> rnd (rnd (- rnd (rnd (c - t) / h) * 2) + 1) = 1"
    and "c = t + h \<Longrightarrow> rnd (rnd (- rnd (rnd (c - t) / h) * 2) + 1) = - 1"
    and "c \<le> c' \<Longrightarrow>
           rnd (rnd (- rnd (rnd (c' - t) / h) * 2) + 1) \<le> rnd (rnd (- rnd (rnd (c - t) / h) * 2) + 1)"
proof -
  from assms(1) have m: "\<And>x y. x \<le> y \<Longrightarrow> rnd x \<le> rnd y"
    and c: "rnd 0 = 0" "rnd 1 = 1" "rnd (- 2) = - 2" "rnd (- 1) = - 1"
    by (simp_all add: rounding_def mono_def)
  show "- 1 \<le> rnd (rnd (- rnd (rnd (c - t) / h) * 2) + 1)
        \<and> rnd (rnd (- rnd (rnd (c - t) / h) * 2) + 1) \<le> 1"
    if "t \<le> c" "c \<le> t + h"
  proof -
    have a: "0 \<le> rnd (c - t)" "rnd (c - t) \<le> h"
      using m [of 0 "c - t"] m [of "c - t" h] that c(1) assms(3) by simp_all
    then have "0 \<le> rnd (c - t) / h" "rnd (c - t) / h \<le> 1"
      using assms(2) by simp_all
    then have q: "0 \<le> rnd (rnd (c - t) / h)" "rnd (rnd (c - t) / h) \<le> 1"
      using m [of 0 "rnd (c - t) / h"] m [of "rnd (c - t) / h" 1] c by simp_all
    then have "- 2 \<le> - rnd (rnd (c - t) / h) * 2" "- rnd (rnd (c - t) / h) * 2 \<le> 0"
      by simp_all
    then have p: "- 2 \<le> rnd (- rnd (rnd (c - t) / h) * 2)" "rnd (- rnd (rnd (c - t) / h) * 2) \<le> 0"
      using m [of "- 2" "- rnd (rnd (c - t) / h) * 2"] m [of "- rnd (rnd (c - t) / h) * 2" 0] c
      by simp_all
    then have "- 1 \<le> rnd (- rnd (rnd (c - t) / h) * 2) + 1" "rnd (- rnd (rnd (c - t) / h) * 2) + 1 \<le> 1"
      by simp_all
    then show ?thesis
      using m [of "- 1" "rnd (- rnd (rnd (c - t) / h) * 2) + 1"]
        m [of "rnd (- rnd (rnd (c - t) / h) * 2) + 1" 1] c by simp
  qed
  show "rnd (rnd (- rnd (rnd (c - t) / h) * 2) + 1) = 1" if "c = t"
    using that c by simp
  show "rnd (rnd (- rnd (rnd (c - t) / h) * 2) + 1) = - 1" if "c = t + h"
    using that c assms(2,3) by simp
  show "rnd (rnd (- rnd (rnd (c' - t) / h) * 2) + 1) \<le> rnd (rnd (- rnd (rnd (c - t) / h) * 2) + 1)"
    if "c \<le> c'"
  proof -
    have "rnd (c - t) \<le> rnd (c' - t)" using that by (intro m) simp
    then have "rnd (c - t) / h \<le> rnd (c' - t) / h"
      using assms(2) by (simp add: divide_right_mono)
    then have "rnd (rnd (c - t) / h) \<le> rnd (rnd (c' - t) / h)" by (rule m)
    then have "- rnd (rnd (c' - t) / h) * 2 \<le> - rnd (rnd (c - t) / h) * 2" by simp
    then have "rnd (- rnd (rnd (c' - t) / h) * 2) \<le> rnd (- rnd (rnd (c - t) / h) * 2)" by (rule m)
    then show ?thesis by (intro m) simp
  qed
qed

text \<open>
  C8, as the code has it. Only a mousemove derives a pointer sample. When its pixel position
  lies inside the bounding rectangle the container has at that event (a rectangle of
  positive width and height, these being doubles), the sample is computed from that
  rectangle, whatever the state was before (the component keeps no rectangle), and both
  coordinates lie in [-1, 1]: the first is -1 on the left edge and 1 on the right edge, the
  second is 1 on the top edge and -1 on the bottom edge, and they grow to the right and
  upwards. This holds for every rounding that is monotone and exact on the small integers.
  A click derives no sample; its pick uses the one the last mousemove stored.
\<close>

theorem onPointerMove_sample_in_range:
  assumes "container s" and "rounding (fl T)"
    and "0 < rect_width r" and "0 < rect_height r"
    and "fl T (rect_width r) = rect_width r" and "fl T (rect_height r) = rect_height r"
    and "rect_left r \<le> clientX" and "clientX \<le> rect_left r + rect_width r"
    and "rect_top r \<le> clientY" and "clientY \<le> rect_top r + rect_height r"
  shows "mouse (after (onPointerMove T clientX clientY r s)) = toNormalizedCoordinates T clientX clientY r
       \<and> (\<exists>u v. toNormalizedCoordinates T clientX clientY r = (Some u, Some v)
              \<and> - 1 \<le> u \<and> u \<le> 1 \<and> - 1 \<le> v \<and> v \<le> 1
              \<and> (clientX = rect_left r \<longrightarrow> u = - 1)
              \<and> (clientX = rect_left r + rect_width r \<longrightarrow> u = 1)
              \<and> (clientY = rect_top r \<longrightarrow> v = 1)
              \<and> (clientY = rect_top r + rect_height r \<longrightarrow> v = - 1)
              \<and> (\<forall>x' y' u' v'. clientX \<le> x' \<and> clientY \<le> y'
                    \<and> toNormalizedCoordinates T x' y' r = (Some u', Some v')
                    \<longrightarrow> u \<le> u' \<and> v' \<le> v))"
proof -
  have stored: "mouse (after (onPointerMove T clientX clientY r s)) = toNormalizedCoordinates T clientX clientY r"
    using assms(1) by (simp add: onPointerMove_def)
  have n: "toNormalizedCoordinates T x y r =
             (Some (fl T (fl T (fl T (fl T (x - rect_left r) / rect_width r) * 2) - 1)),
              Some (fl T (fl T (- fl T (fl T (y - rect_top r) / rect_height r) * 2) + 1)))" for x y
    using assms(3,4) by (simp add: toNormalizedCoordinates_def jsdiv_def)
  let ?u = "fl T (fl T (fl T (fl T (clientX - rect_left r) / rect_width r) * 2) - 1)"
  let ?v = "fl T (fl T (- fl T (fl T (clientY - rect_top r) / rect_height r) * 2) + 1)"
  have x1: "- 1 \<le> ?u \<and> ?u \<le> 1"
    by (rule ndc_x_props(1) [OF assms(2,3,5) assms(7,8)])
  have x2: "clientX = rect_left r \<Longrightarrow> ?u = - 1"
    by (rule ndc_x_props(2) [OF assms(2,3,5)])
  have x3: "clientX = rect_left r + rect_width r \<Longrightarrow> ?u = 1"
    by (rule ndc_x_props(3) [OF assms(2,3,5)])
  have x4: "clientX \<le> x' \<Longrightarrow>
      ?u \<le> fl T (fl T (fl T (fl T (x' - rect_left r) / rect_width r) * 2) - 1)" for x'
    by (rule ndc_x_props(4) [OF assms(2,3,5)])
  have y1: "- 1 \<le> ?v \<and> ?v \<le> 1"
    by (rule ndc_y_props(1) [OF assms(2,4,6) assms(9,10)])
  have y2: "clientY = rect_top r \<Longrightarrow> ?v = 1"
    by (rule ndc_y_props(2) [OF assms(2,4,6)])
  have y3: "clientY = rect_top r + rect_height r \<Longrightarrow> ?v = - 1"
    by (rule ndc_y_props(3) [OF assms(2,4,6)])
  have y4: "clientY \<le> y' \<Longrightarrow>
      fl T (fl T (- fl T (fl T (y' - rect_top r) / rect_height r) * 2) + 1) \<le> ?v" for y'
    by (rule ndc_y_props(4) [OF assms(2,4,6)])
  have "toNormalizedCoordinates T clientX clientY r = (Some ?u, Some ?v)
      \<and> - 1 \<le> ?u \<and> ?u \<le> 1 \<and> - 1 \<le> ?v \<and> ?v \<le> 1
      \<and> (clientX = rect_left r \<longrightarrow> ?u = - 1)
      \<and> (clientX = rect_left r + rect_width r \<longrightarrow> ?u = 1)
      \<and> (clientY = rect_top r \<longrightarrow> ?v = 1)
      \<and> (clientY = rect_top r + rect_height r \<longrightarrow> ?v = - 1)
      \<and> (\<forall>x' y' u' v'. clientX \<le> x' \<and> clientY \<le> y'
            \<and> toNormalizedCoordinates T x' y' r = (Some u', Some v')
            \<longrightarrow> ?u \<le> u' \<and> v' \<le> ?v)"
    using x1 x2 x3 x4 y1 y2 y3 y4 by (auto simp: n)
  then show ?thesis using stored by blast
qed

lemma rounding_z_host: "rounding (fl z_host)"
  by (simp add: rounding_def mono_def)

theorem onPointerMove_sample_in_range_witness:
  "container (mounted_state front_view) \<and> rounding (fl z_host)
   \<and> 0 < rect_width rect0 \<and> 0 < rect_height rect0
   \<and> fl z_host (rect_width rect0) = rect_width rect0
   \<and> fl z_host (rect_height rect0) = rect_height rect0
   \<and> rect_left rect0 \<le> 200 \<and> 200 \<le> rect_left rect0 + rect_width rect0
   \<and> rect_top rect0 \<le> 150 \<and> 150 \<le> rect_top rect0 + rect_height rect0
   \<and> mouse (after (onPointerMove z_host 200 150 rect0 (mounted_state front_view)))
       = (Some (- 1 / 2), Some (1 / 2))
   \<and> toNormalizedCoordinates z_host 0 0 rect0 = (Some (- 1), Some 1)
   \<and> toNormalizedCoordinates z_host 800 600 rect0 = (Some 1, Some (- 1))"
proof -
  have h: "container (mounted_state front_view)" "rounding (fl z_host)"
    "0 < rect_width rect0" "0 < rect_height rect0"
    "fl z_host (rect_width rect0) = rect_width rect0"
    "fl z_host (rect_height rect0) = rect_height rect0"
    "rect_left rect0 \<le> 200" "200 \<le> rect_left rect0 + rect_width rect0"
    "rect_top rect0 \<le> 150" "150 \<le> rect_top rect0 + rect_height rect0"
    by (simp_all add: mounted_state_eq rect0_def rounding_z_host)
  have n: "toNormalizedCoordinates z_host 200 150 rect0 = (Some (- 1 / 2), Some (1 / 2))"
    "toNormalizedCoordinates z_host 0 0 rect0 = (Some (- 1), Some 1)"
    "toNormalizedCoordinates z_host 800 600 rect0 = (Some 1, Some (- 1))"
    by (simp_all add: toNormalizedCoordinates_def jsdiv_def rect0_def)
  with onPointerMove_sample_in_range [OF h] h show ?thesis by simp
qed

lemma getIntersects_cases:
  "(camera s = None \<and> getIntersects T s = Threw TypeError s)
   \<or> (\<exists>cam. camera s = Some cam \<and> scene s = None
         \<and> getIntersects T s = Threw TypeError (s\<lparr>raycaster := setFromCamera T (mouse s) cam (raycaster s)\<rparr>))
   \<or> (\<exists>cam ch. camera s = Some cam \<and> scene s = Some ch
         \<and> getIntersects T s =
             Returned (filter (\<lambda>i. isInteractable (object i))
                         (fst (intersectObjects T (setFromCamera T (mouse s) cam (raycaster s)) ch)), ch)
                      (s\<lparr>raycaster := setFromCamera T (mouse s) cam (raycaster s)\<rparr>))"
  by (cases "camera s"; cases "scene s") (simp_all add: getIntersects_def Let_def intersectObjects_def)

lemma returned_getIntersects:
  "returned (getIntersects T s) =
     (case (camera s, scene s) of
        (Some cam, Some ch) \<Rightarrow>
          Some (filter (\<lambda>i. isInteractable (object i))
                  (fst (intersectObjects T \<lparr>ray = unproject T (mouse s) cam, rc_camera = Some cam\<rparr> ch)), ch)
      | _ \<Rightarrow> None)"
  using getIntersects_cases [of s T] by (auto simp: setFromCamera_fresh)

lemma threw_getIntersects: "threw (getIntersects T s) \<longleftrightarrow> camera s = None \<or> scene s = None"
  using getIntersects_cases [of s T] by auto

lemma checkIntersection_cursor:
  "returned (getIntersects T s) = Some (is, tested) \<Longrightarrow>
   cursor (after (checkIntersection T s)) = (if is \<noteq> [] then ''pointer'' else ''default'')"
  by (cases "getIntersects T s") (auto simp: checkIntersection_def)

lemma getIntersects_hits_interactable:
  "returned (getIntersects T s) = Some (is, tested) \<Longrightarrow> i \<in> set is \<Longrightarrow> isInteractable (object i)"
  by (auto simp: returned_getIntersects split: option.splits)

lemma onClick_selectedObject:
  assumes "returned (getIntersects T s) = Some (is, tested)"
  shows "selectedObject (after (onClick T s)) = (case is of [] \<Rightarrow> None | i # rest \<Rightarrow> userData (object i))"
    and "\<not> threw (onClick T s)"
proof -
  obtain s1 where g: "getIntersects T s = Returned (is, tested) s1"
    using assms by (cases "getIntersects T s") auto
  show "selectedObject (after (onClick T s)) = (case is of [] \<Rightarrow> None | i # rest \<Rightarrow> userData (object i))"
  proof (cases "is")
    case Nil
    with g show ?thesis by (simp add: onClick_def)
  next
    case (Cons i rest)
    with assms have "isInteractable (object i)"
      using getIntersects_hits_interactable [of T s "is" tested i] by simp
    then have "userData (object i) \<noteq> None" by (rule isInteractable_userData)
    with g Cons show ?thesis by (auto simp: onClick_def)
  qed
  show "\<not> threw (onClick T s)"
    using g by (auto simp: onClick_def split: list.splits)
qed

text \<open>
  C7. Two invocations of \<open>getIntersects\<close> with the same pointer sample, camera and scene
  children give the same result, whatever else differs between the two states (the ray left
  in the raycaster by an earlier pick, the selection, the cursor). Hence the hover path and
  the click path agree: the cursor becomes a pointer exactly when a click on the same inputs
  selects an object.
\<close>

theorem getIntersects_deterministic:
  assumes "mouse s1 = mouse s2" and "camera s1 = camera s2" and "scene s1 = scene s2"
  shows "returned (getIntersects T s1) = returned (getIntersects T s2)
       \<and> (threw (getIntersects T s1) \<longleftrightarrow> threw (getIntersects T s2))
       \<and> (\<not> threw (getIntersects T s1) \<longrightarrow>
            (cursor (after (checkIntersection T s1)) = ''pointer''
               \<longleftrightarrow> selectedObject (after (onClick T s2)) \<noteq> None))"
proof -
  have r: "returned (getIntersects T s1) = returned (getIntersects T s2)"
    using assms by (simp add: returned_getIntersects split: option.splits)
  have t: "threw (getIntersects T s1) \<longleftrightarrow> threw (getIntersects T s2)"
    using assms by (simp add: threw_getIntersects)
  have "cursor (after (checkIntersection T s1)) = ''pointer''
          \<longleftrightarrow> selectedObject (after (onClick T s2)) \<noteq> None"
    if "\<not> threw (getIntersects T s1)"
  proof -
    from that obtain "is" tested where g1: "returned (getIntersects T s1) = Some (is, tested)"
      by (cases "getIntersects T s1") auto
    with r have g2: "returned (getIntersects T s2) = Some (is, tested)" by simp
    show ?thesis
    proof (cases "is")
      case Nil
      then show ?thesis
        using checkIntersection_cursor [OF g1] onClick_selectedObject(1) [OF g2] by simp
    next
      case (Cons i rest)
      then have "isInteractable (object i)"
        using getIntersects_hits_interactable [OF g1, of i] by simp
      then have "userData (object i) \<noteq> None" by (rule isInteractable_userData)
      then show ?thesis
        using Cons checkIntersection_cursor [OF g1] onClick_selectedObject(1) [OF g2] by simp
    qed
  qed
  with r t show ?thesis by blast
qed

lemma unproject_front:
  "cam_position c = (0, 1 / 2, 5) \<Longrightarrow> quaternion c = (0, 0, 0, 1) \<Longrightarrow>
   unproject z_host (Some 0, Some 0) c = Some ((0, 1 / 2, 5), - 1)"
  by (simp add: z_host_def z_unproject_def)

lemma returned_getIntersects_front:
  assumes "mouse s = (Some 0, Some 0)" and "camera s = camera (mounted_state front_view)"
    and "scene s = Some scene_children"
  shows "returned (getIntersects z_host s) =
           Some ([\<lparr>distance = 31 / 10, object = populate_mesh (objectsData ! 1)\<rparr>,
                  \<lparr>distance = 17 / 4, object = populate_mesh (objectsData ! 0)\<rparr>],
                 scene_children)"
  using assms
  by (simp add: returned_getIntersects mounted_state_eq front_view_def unproject_front hits_front)

theorem getIntersects_deterministic_witness:
  "mouse (mounted_state front_view) =
     mouse ((mounted_state front_view)
              \<lparr>raycaster := \<lparr>ray = None, rc_camera = None\<rparr>, selectedObject := Some [],
               cursor := ''default''\<rparr>)
   \<and> raycaster (mounted_state front_view) \<noteq> \<lparr>ray = None, rc_camera = None\<rparr>
   \<and> returned (getIntersects z_host (mounted_state front_view)) =
       returned (getIntersects z_host
         ((mounted_state front_view)
            \<lparr>raycaster := \<lparr>ray = None, rc_camera = None\<rparr>, selectedObject := Some [],
             cursor := ''default''\<rparr>))
   \<and> cursor (after (checkIntersection z_host (mounted_state front_view))) = ''pointer''
   \<and> selectedObject (after (onClick z_host
         ((mounted_state front_view)
            \<lparr>raycaster := \<lparr>ray = None, rc_camera = None\<rparr>, selectedObject := Some [],
             cursor := ''default''\<rparr>))) \<noteq> None"
proof -
  let ?s1 = "mounted_state front_view"
  let ?s2 = "?s1\<lparr>raycaster := \<lparr>ray = None, rc_camera = None\<rparr>, selectedObject := Some [],
               cursor := ''default''\<rparr>"
  have h: "mouse ?s1 = mouse ?s2" "camera ?s1 = camera ?s2" "scene ?s1 = scene ?s2"
    by simp_all
  have g: "returned (getIntersects z_host ?s1) =
             Some ([\<lparr>distance = 31 / 10, object = populate_mesh (objectsData ! 1)\<rparr>,
                    \<lparr>distance = 17 / 4, object = populate_mesh (objectsData ! 0)\<rparr>],
                   scene_children)"
    by (rule returned_getIntersects_front) (simp_all add: mounted_state_eq)
  then have nt: "\<not> threw (getIntersects z_host ?s1)"
    by (cases "getIntersects z_host ?s1") simp_all
  have c: "cursor (after (checkIntersection z_host ?s1)) = ''pointer''"
    using checkIntersection_cursor [OF g] by simp
  have d: "raycaster ?s1 \<noteq> \<lparr>ray = None, rc_camera = None\<rparr>"
    by (simp add: mounted_state_eq)
  from getIntersects_deterministic [OF h, of z_host] nt c d h(1) show ?thesis by simp
qed

lemma returned_getIntersects_selectedObject [simp]:
  "returned (getIntersects T (s\<lparr>selectedObject := prior\<rparr>)) = returned (getIntersects T s)"
  by (simp add: returned_getIntersects split: option.splits)

text \<open>
  C2. Whatever the selection was before a click: when the pick has a hit, the selection
  afterwards is the \<open>userData\<close> of the nearest interactable object hit, which for a mesh
  made by \<open>populateObjects\<close> carries every property of its template (a click on the object
  already selected selects it again); when the pick has no hit, the selection afterwards
  is empty.
\<close>

theorem onClick_selection:
  assumes "returned (getIntersects T s) = Some (intersects, tested)"
  shows "\<not> threw (onClick T (s\<lparr>selectedObject := prior\<rparr>))
       \<and> (intersects = [] \<longrightarrow>
            selectedObject (after (onClick T (s\<lparr>selectedObject := prior\<rparr>))) = None)
       \<and> (\<forall>i rest. intersects = i # rest \<longrightarrow>
            selectedObject (after (onClick T (s\<lparr>selectedObject := prior\<rparr>))) = userData (object i)
            \<and> userData (object i) \<noteq> None
            \<and> (\<forall>obj. object i = populate_mesh obj \<longrightarrow>
                  selectedObject (after (onClick T (s\<lparr>selectedObject := prior\<rparr>)))
                    = Some (mesh_userData obj)
                  \<and> carries (mesh_userData obj) obj))"
proof -
  let ?s = "s\<lparr>selectedObject := prior\<rparr>"
  have g: "returned (getIntersects T ?s) = Some (intersects, tested)"
    using assms by simp
  have sel: "selectedObject (after (onClick T ?s)) =
               (case intersects of [] \<Rightarrow> None | i # rest \<Rightarrow> userData (object i))"
    by (rule onClick_selectedObject(1) [OF g])
  have nt: "\<not> threw (onClick T ?s)"
    by (rule onClick_selectedObject(2) [OF g])
  have hit: "userData (object i) \<noteq> None" if "intersects = i # rest" for i rest
  proof -
    have "isInteractable (object i)"
      using getIntersects_hits_interactable [OF g, of i] that by simp
    then show ?thesis by (rule isInteractable_userData)
  qed
  show ?thesis
    using sel nt hit by (auto simp: carries_mesh_userData)
qed

lemma unproject_below:
  "cam_position c = (0, 1 / 2, 5) \<Longrightarrow> quaternion c = (0, 0, 0, 1) \<Longrightarrow>
   unproject z_host (Some (- 1), Some (- 1)) c = Some ((- 1, - (1 / 2), 5), - 1)"
  by (simp add: z_host_def z_unproject_def)

lemma returned_getIntersects_below:
  assumes "mouse s = (Some (- 1), Some (- 1))" and "camera s = camera (mounted_state front_view)"
    and "scene s = Some scene_children"
  shows "returned (getIntersects z_host s) = Some ([], scene_children)"
  using assms
  by (simp add: returned_getIntersects mounted_state_eq front_view_def unproject_below hits_below)

theorem onClick_selection_witness:
  "returned (getIntersects z_host (mounted_state front_view)) =
     Some ([\<lparr>distance = 31 / 10, object = populate_mesh (objectsData ! 1)\<rparr>,
            \<lparr>distance = 17 / 4, object = populate_mesh (objectsData ! 0)\<rparr>], scene_children)
   \<and> selectedObject (after (onClick z_host
         ((mounted_state front_view)\<lparr>selectedObject := Some (mesh_userData (objectsData ! 1))\<rparr>)))
       = Some (mesh_userData (objectsData ! 1))
   \<and> selectedObject (after (onClick z_host
         ((mounted_state front_view)\<lparr>selectedObject := Some (mesh_userData (objectsData ! 0))\<rparr>)))
       = Some (mesh_userData (objectsData ! 1))
   \<and> returned (getIntersects z_host ((mounted_state front_view)\<lparr>mouse := (Some (- 1), Some (- 1))\<rparr>)) =
     Some ([], scene_children)
   \<and> selectedObject (after (onClick z_host
         ((mounted_state front_view)\<lparr>mouse := (Some (- 1), Some (- 1)),
            selectedObject := Some (mesh_userData (objectsData ! 1))\<rparr>))) = None"
proof -
  have g: "returned (getIntersects z_host (mounted_state front_view)) =
     Some ([\<lparr>distance = 31 / 10, object = populate_mesh (objectsData ! 1)\<rparr>,
            \<lparr>distance = 17 / 4, object = populate_mesh (objectsData ! 0)\<rparr>], scene_children)"
    by (rule returned_getIntersects_front) (simp_all add: mounted_state_eq)
  have m: "returned (getIntersects z_host ((mounted_state front_view)\<lparr>mouse := (Some (- 1), Some (- 1))\<rparr>)) =
     Some ([], scene_children)"
    by (rule returned_getIntersects_below) (simp_all add: mounted_state_eq)
  show ?thesis
    using g m
      onClick_selection [OF g, of "Some (mesh_userData (objectsData ! 1))"]
      onClick_selection [OF g, of "Some (mesh_userData (objectsData ! 0))"]
      onClick_selection [OF m, of "Some (mesh_userData (objectsData ! 1))"]
    by simp
qed

text \<open>
  C4. No hit returned by \<open>getIntersects\<close> belongs to an object without a truthy
  \<open>isInteractable\<close> in its \<open>userData\<close>; in particular none belongs to the floor or to a
  wall, also when the ray meets such an object first.
\<close>

theorem getIntersects_never_structural:
  assumes "returned (getIntersects T s) = Some (intersects, tested)" and "i \<in> set intersects"
  shows "isInteractable (object i) \<and> object i \<notin> {floor_mesh, backWall, leftWall}"
proof -
  have "isInteractable (object i)"
    by (rule getIntersects_hits_interactable [OF assms])
  moreover have "\<not> isInteractable floor_mesh" "\<not> isInteractable backWall" "\<not> isInteractable leftWall"
    by simp_all
  ultimately show ?thesis by auto
qed

lemma unproject_behind_wall:
  "cam_position c = (- 2, 1 / 2, - 10) \<Longrightarrow> quaternion c = (0, 1, 0, 0) \<Longrightarrow>
   unproject z_host (Some 0, Some 0) c = Some ((- 2, 1 / 2, - 10), 1)"
  by (simp add: z_host_def z_unproject_def)

lemma returned_getIntersects_behind_wall:
  "returned (getIntersects z_host (mounted_state behind_wall_view)) =
     Some ([\<lparr>distance = 31 / 4, object = populate_mesh (objectsData ! 3)\<rparr>], scene_children)"
  by (simp add: returned_getIntersects mounted_state_eq behind_wall_view_def
      unproject_behind_wall hits_behind_wall)

theorem getIntersects_never_structural_witness:
  "fst (intersectObjects z_host
          \<lparr>ray = Some ((- 2, 1 / 2, - 10), 1), rc_camera = camera (mounted_state behind_wall_view)\<rparr>
          scene_children) =
     [\<lparr>distance = 5, object = backWall\<rparr>,
      \<lparr>distance = 31 / 4, object = populate_mesh (objectsData ! 3)\<rparr>]
   \<and> returned (getIntersects z_host (mounted_state behind_wall_view)) =
       Some ([\<lparr>distance = 31 / 4, object = populate_mesh (objectsData ! 3)\<rparr>], scene_children)
   \<and> isInteractable (populate_mesh (objectsData ! 3))
   \<and> populate_mesh (objectsData ! 3) \<notin> {floor_mesh, backWall, leftWall}"
proof -
  have g: "returned (getIntersects z_host (mounted_state behind_wall_view)) =
       Some ([\<lparr>distance = 31 / 4, object = populate_mesh (objectsData ! 3)\<rparr>], scene_children)"
    by (rule returned_getIntersects_behind_wall)
  have i: "\<lparr>distance = 31 / 4, object = populate_mesh (objectsData ! 3)\<rparr>
             \<in> set [\<lparr>distance = 31 / 4, object = populate_mesh (objectsData ! 3)\<rparr>]"
    by simp
  from getIntersects_never_structural [OF g i] g hits_behind_wall show ?thesis by simp
qed

text \<open>
  C5, as the code has it. \<open>getIntersects\<close> hands every child of the scene to
  \<open>intersectObjects\<close> and filters the hits afterwards, so the floor, the walls and the
  lights are tested too. The hits it returns are nevertheless those of intersecting only
  the interactable children.
\<close>

theorem getIntersects_filter_after_intersection:
  assumes "camera s = Some cam" and "scene s = Some ch"
  shows "returned (getIntersects T s) =
           Some (fst (intersectObjects T (setFromCamera T (mouse s) cam (raycaster s))
                        (filter isInteractable ch)), ch)"
  using assms
  by (simp add: getIntersects_defined [OF assms] filter_after_is_filter_before)

lemma filter_isInteractable_scene_children:
  "filter isInteractable scene_children = map populate_mesh objectsData"
  by (simp add: scene_children_def filter_map comp_def)

theorem getIntersects_filter_after_intersection_witness:
  "camera (mounted_state front_view) =
     Some \<lparr>fov = 75, aspect = Some 2, near = 1 / 10, far = 1000,
           cam_position = (0, 1 / 2, 5), quaternion = (0, 0, 0, 1),
           projection = (75, Some 2, 1 / 10, 1000)\<rparr>
   \<and> scene (mounted_state front_view) = Some scene_children
   \<and> returned (getIntersects z_host (mounted_state front_view)) =
       Some (fst (intersectObjects z_host
                    \<lparr>ray = Some ((0, 1 / 2, 5), - 1), rc_camera = camera (mounted_state front_view)\<rparr>
                    (map populate_mesh objectsData)), scene_children)"
proof -
  have c: "camera (mounted_state front_view) =
     Some \<lparr>fov = 75, aspect = Some 2, near = 1 / 10, far = 1000,
           cam_position = (0, 1 / 2, 5), quaternion = (0, 0, 0, 1),
           projection = (75, Some 2, 1 / 10, 1000)\<rparr>"
    by (simp add: mounted_state_eq front_view_def)
  have sc: "scene (mounted_state front_view) = Some scene_children"
    by (simp add: mounted_state_eq)
  have m: "mouse (mounted_state front_view) = (Some 0, Some 0)"
    by (simp add: mounted_state_eq)
  from getIntersects_filter_after_intersection [OF c sc, of z_host] c sc m show ?thesis
    by (simp add: setFromCamera_fresh unproject_front filter_isInteractable_scene_children)
qed

theorem getIntersects_tests_structural_counterexample:
  "map_option snd (returned (getIntersects z_host (mounted_state front_view))) = Some scene_children
   \<and> floor_mesh \<in> set scene_children \<and> \<not> isInteractable floor_mesh
   \<and> backWall \<in> set scene_children \<and> \<not> isInteractable backWall
   \<and> \<lparr>distance = 10, object = backWall\<rparr>
       \<in> set (fst (intersectObjects z_host
                     \<lparr>ray = Some ((0, 1 / 2, 5), - 1), rc_camera = camera (mounted_state front_view)\<rparr>
                     scene_children))"
proof -
  have "returned (getIntersects z_host (mounted_state front_view)) =
     Some ([\<lparr>distance = 31 / 10, object = populate_mesh (objectsData ! 1)\<rparr>,
            \<lparr>distance = 17 / 4, object = populate_mesh (objectsData ! 0)\<rparr>], scene_children)"
    by (rule returned_getIntersects_front) (simp_all add: mounted_state_eq)
  then show ?thesis
    by (simp add: hits_front) (simp add: scene_children_def)
qed

subsection \<open>What the handlers change\<close>

lemma after_checkIntersection:
  "\<exists>rc c. after (checkIntersection T s) = s\<lparr>raycaster := rc, cursor := c\<rparr>"
proof -
  have triv: "s = s\<lparr>raycaster := raycaster s, cursor := cursor s\<rparr>" by simp
  from getIntersects_cases [of s T] show ?thesis
  proof (elim disjE exE conjE)
    assume "getIntersects T s = Threw TypeError s"
    then have "after (checkIntersection T s) = s" by (simp add: checkIntersection_def)
    with triv show ?thesis by metis
  next
    fix cam
    assume "getIntersects T s =
      Threw TypeError (s\<lparr>raycaster := setFromCamera T (mouse s) cam (raycaster s)\<rparr>)"
    then have "after (checkIntersection T s) =
        s\<lparr>raycaster := setFromCamera T (mouse s) cam (raycaster s), cursor := cursor s\<rparr>"
      by (simp add: checkIntersection_def)
    then show ?thesis by blast
  next
    fix cam ch
    assume "getIntersects T s =
      Returned (filter (\<lambda>i. isInteractable (object i))
                  (fst (intersectObjects T (setFromCamera T (mouse s) cam (raycaster s)) ch)), ch)
               (s\<lparr>raycaster := setFromCamera T (mouse s) cam (raycaster s)\<rparr>)"
    then show ?thesis by (auto simp: checkIntersection_def)
  qed
qed

lemma after_onClick:
  "\<exists>rc sel. after (onClick T s) = s\<lparr>raycaster := rc, selectedObject := sel\<rparr>"
proof -
  have triv: "s = s\<lparr>raycaster := raycaster s, selectedObject := selectedObject s\<rparr>" by simp
  from getIntersects_cases [of s T] show ?thesis
  proof (elim disjE exE conjE)
    assume "getIntersects T s = Threw TypeError s"
    then have "after (onClick T s) = s" by (simp add: onClick_def)
    with triv show ?thesis by metis
  next
    fix cam
    assume "getIntersects T s =
      Threw TypeError (s\<lparr>raycaster := setFromCamera T (mouse s) cam (raycaster s)\<rparr>)"
    then have "after (onClick T s) =
        s\<lparr>raycaster := setFromCamera T (mouse s) cam (raycaster s), selectedObject := selectedObject s\<rparr>"
      by (simp add: onClick_def)
    then show ?thesis by blast
  next
    fix cam ch
    let ?rc = "setFromCamera T (mouse s) cam (raycaster s)"
    let ?is = "filter (\<lambda>i. isInteractable (object i)) (fst (intersectObjects T ?rc ch))"
    assume g: "getIntersects T s = Returned (?is, ch) (s\<lparr>raycaster := ?rc\<rparr>)"
    show ?thesis
    proof (cases ?is)
      case Nil
      with g have "after (onClick T s) = s\<lparr>raycaster := ?rc, selectedObject := None\<rparr>"
        by (simp add: onClick_def)
      then show ?thesis by blast
    next
      case (Cons i rest)
      with g have "after (onClick T s) = s\<lparr>raycaster := ?rc, selectedObject := userData (object i)\<rparr>
                 \<or> after (onClick T s) = s\<lparr>raycaster := ?rc, selectedObject := selectedObject s\<rparr>"
        by (simp add: onClick_def)
      then show ?thesis by blast
    qed
  qed
qed

lemma after_onPointerMove:
  "container s \<Longrightarrow>
   \<exists>rc c. after (onPointerMove T clientX clientY r s) =
     s\<lparr>mouse := toNormalizedCoordinates T clientX clientY r, raycaster := rc, cursor := c\<rparr>"
  using after_checkIntersection [of T "s\<lparr>mouse := toNormalizedCoordinates T clientX clientY r\<rparr>"]
  by (auto simp: onPointerMove_def)

lemma run_snoc: "run T (evs @ [ev]) s = after (step T ev (run T evs s))"
  by (simp add: run_def)

lemma onMounted_bound:
  "container s \<Longrightarrow>
   onMounted T w h p s =
     s\<lparr>scene := Some scene_children,
       camera := Some \<lparr>fov = 75, aspect = jsdiv (fl T) w h, near = 1 / 10, far = 1000,
                       cam_position = fst p, quaternion = snd p,
                       projection = (75, jsdiv (fl T) w h, 1 / 10, 1000)\<rparr>,
       renderer := Some (w, h), animating := True, listening := True\<rparr>"
  by (simp add: onMounted_def initScene_def Let_def animate_def createRoom_def populateObjects_eq
      scene_children_def new_PerspectiveCamera_def updateProjectionMatrix_def)

lemma onMounted_unbound: "\<not> container s \<Longrightarrow> onMounted T w h p s = s\<lparr>listening := True\<rparr>"
  by (simp add: onMounted_def initScene_def)

subsection \<open>Invariants of every run\<close>

text \<open>While the listeners are registered or the animation runs, the scene, the camera and
  the renderer exist, and the projection of the camera agrees with its parameters.\<close>

lemma step_established:
  assumes "mount_bound ev"
    and "listening s \<or> animating s \<longrightarrow>
           scene s = Some scene_children \<and> renderer s \<noteq> None \<and> container s
           \<and> (\<exists>c. camera s = Some c \<and> projection c = (fov c, aspect c, near c, far c))"
  shows "listening (after (step T ev s)) \<or> animating (after (step T ev s)) \<longrightarrow>
           scene (after (step T ev s)) = Some scene_children
           \<and> renderer (after (step T ev s)) \<noteq> None \<and> container (after (step T ev s))
           \<and> (\<exists>c. camera (after (step T ev s)) = Some c
                  \<and> projection c = (fov c, aspect c, near c, far c))"
proof (cases ev)
  case (Mounted b w h p)
  with assms(1) have "b" by simp
  then show ?thesis using Mounted by (simp add: onMounted_bound)
next
  case Unmounted
  then show ?thesis by (simp add: onUnmounted_def Let_def)
next
  case (Resize w h)
  then show ?thesis using assms(2)
    by (auto simp: handleResize_def updateProjectionMatrix_def split: option.splits)
next
  case (MouseMove clientX clientY r)
  show ?thesis
  proof (cases "listening s")
    case True
    with assms(2) have c: "container s" by simp
    from after_onPointerMove [OF c, of T clientX clientY r] obtain rc cu where
      "after (onPointerMove T clientX clientY r s) =
         s\<lparr>mouse := toNormalizedCoordinates T clientX clientY r, raycaster := rc, cursor := cu\<rparr>"
      by blast
    with True MouseMove assms(2) show ?thesis by simp
  next
    case False
    with MouseMove assms(2) show ?thesis by simp
  qed
next
  case (Click clientX clientY r)
  from after_onClick [of T s] obtain rc sel where
    "after (onClick T s) = s\<lparr>raycaster := rc, selectedObject := sel\<rparr>" by blast
  with Click assms(2) show ?thesis by simp
next
  case (Frame p)
  then show ?thesis using assms(2) by (auto simp: animate_def)
qed

lemma run_established:
  assumes "\<forall>ev\<in>set evs. mount_bound ev"
  shows "listening (run T evs (state0 T)) \<or> animating (run T evs (state0 T)) \<longrightarrow>
           scene (run T evs (state0 T)) = Some scene_children
           \<and> renderer (run T evs (state0 T)) \<noteq> None \<and> container (run T evs (state0 T))
           \<and> (\<exists>c. camera (run T evs (state0 T)) = Some c
                  \<and> projection c = (fov c, aspect c, near c, far c))"
  using assms
proof (induction evs rule: rev_induct)
  case Nil
  then show ?case by (simp add: run_def state0_def)
next
  case (snoc ev evs)
  then have "mount_bound ev" and "\<forall>ev\<in>set evs. mount_bound ev" by simp_all
  with snoc.IH show ?case
    unfolding run_snoc by (intro step_established) simp_all
qed

text \<open>
  C9. In every run in which the framework has bound the container when it runs the mounted
  hook, the camera exists, with a projection computed from its current parameters, whenever
  the listeners are registered: \<open>onMounted\<close> runs \<open>initScene\<close>, whose camera constructor
  computes the projection, before it registers them. So no mousemove, click or resize
  callback throws, and every pick runs on a defined camera.
\<close>

theorem pick_camera_established:
  assumes "\<forall>ev\<in>set evs. mount_bound ev" and "pointer_event ev"
  shows "\<not> threw (step T ev (run T evs (state0 T)))
       \<and> (listening (run T evs (state0 T)) \<longrightarrow>
            (\<exists>c. camera (run T evs (state0 T)) = Some c
                \<and> projection c = (fov c, aspect c, near c, far c)
                \<and> \<not> threw (getIntersects T (run T evs (state0 T)))))"
proof -
  let ?s = "run T evs (state0 T)"
  note inv = run_established [OF assms(1), of T]
  have pick: "\<not> threw (getIntersects T s')"
    if "camera s' = camera ?s" "scene s' = scene ?s" "listening ?s" for s'
    using that inv by (auto simp: threw_getIntersects)
  have "\<not> threw (step T ev ?s)"
  proof (cases ev)
    case (Resize w h)
    then show ?thesis by simp
  next
    case (MouseMove clientX clientY r)
    show ?thesis
    proof (cases "listening ?s")
      case True
      with inv have c: "container ?s" by simp
      let ?s1 = "?s\<lparr>mouse := toNormalizedCoordinates T clientX clientY r\<rparr>"
      have "\<not> threw (getIntersects T ?s1)" using pick [of ?s1] True by simp
      then have "\<not> threw (checkIntersection T ?s1)"
        by (cases "getIntersects T ?s1") (auto simp: checkIntersection_def split: if_splits)
      with True c MouseMove show ?thesis by (simp add: onPointerMove_def)
    next
      case False
      with MouseMove show ?thesis by simp
    qed
  next
    case (Click clientX clientY r)
    show ?thesis
    proof (cases "listening ?s")
      case True
      have "\<not> threw (getIntersects T ?s)" using pick [of ?s] True by simp
      then obtain "is" tested where "returned (getIntersects T ?s) = Some (is, tested)"
        by (cases "getIntersects T ?s") auto
      then have "\<not> threw (onClick T ?s)" by (rule onClick_selectedObject(2))
      with True Click show ?thesis by simp
    next
      case False
      with Click show ?thesis by simp
    qed
  qed (use assms(2) in simp_all)
  moreover have "listening ?s \<longrightarrow>
            (\<exists>c. camera ?s = Some c \<and> projection c = (fov c, aspect c, near c, far c)
                \<and> \<not> threw (getIntersects T ?s))"
    using inv pick [of ?s] by auto
  ultimately show ?thesis by blast
qed

theorem pick_camera_established_witness:
  "mount_bound (Mounted True 1200 600 front_view) \<and> mount_bound (Resize 600 600)
   \<and> pointer_event (Click 0 0 rect0)
   \<and> listening (run z_host [Mounted True 1200 600 front_view, Resize 600 600] (state0 z_host))
   \<and> \<not> threw (step z_host (Click 0 0 rect0)
                (run z_host [Mounted True 1200 600 front_view, Resize 600 600] (state0 z_host)))
   \<and> (\<exists>c. camera (run z_host [Mounted True 1200 600 front_view, Resize 600 600] (state0 z_host)) = Some c
         \<and> projection c = (fov c, aspect c, near c, far c))"
proof -
  have h1: "\<forall>ev\<in>set [Mounted True 1200 600 front_view, Resize 600 600]. mount_bound ev" by simp
  have h2: "pointer_event (Click 0 0 rect0)" by simp
  have l: "listening (run z_host [Mounted True 1200 600 front_view, Resize 600 600] (state0 z_host))"
    by (simp add: run_def state0_def onMounted_bound handleResize_def)
  have m: "mount_bound (Mounted True 1200 600 front_view)" "mount_bound (Resize 600 600)" by simp_all
  from pick_camera_established [OF h1 h2, of z_host] h2 l m show ?thesis by blast
qed

text \<open>The premise on the container is needed: were the template ref unbound when the hook
  runs, \<open>initScene\<close> would return at once, the listeners would be registered all the same,
  and a click would reach \<open>setFromCamera\<close> with no camera.\<close>

lemma unbound_container_click_throws:
  "threw (step T (Click clientX clientY r) (run T [Mounted False w h p] (state0 T)))"
  by (simp add: run_def state0_def onMounted_unbound onClick_def getIntersects_def)

subsection \<open>The selection\<close>

lemma selectedObject_after_onClick:
  "selectedObject (after (onClick T s)) =
     (case returned (getIntersects T s) of
        None \<Rightarrow> selectedObject s
      | Some (intersects, tested) \<Rightarrow>
          (case intersects of [] \<Rightarrow> None | i # rest \<Rightarrow> userData (object i)))"
proof (cases "returned (getIntersects T s)")
  case None
  then obtain e s1 where t: "getIntersects T s = Threw e s1"
    by (cases "getIntersects T s") auto
  from after_getIntersects [of T s] t have "selectedObject s1 = selectedObject s" by auto
  with t None show ?thesis by (simp add: onClick_def)
next
  case (Some v)
  obtain "is" tested where v: "v = (is, tested)" by (cases v)
  with Some have "returned (getIntersects T s) = Some (is, tested)" by simp
  from onClick_selectedObject(1) [OF this] Some v show ?thesis by simp
qed

lemma getIntersects_hits_from_scene:
  assumes "returned (getIntersects T s) = Some (is, tested)" and "i \<in> set is"
  shows "scene s = Some tested \<and> object i \<in> set tested"
proof -
  from assms(1) obtain cam where c: "camera s = Some cam" and sc: "scene s = Some tested"
    and f: "is = filter (\<lambda>i. isInteractable (object i))
                  (fst (intersectObjects T \<lparr>ray = unproject T (mouse s) cam, rc_camera = Some cam\<rparr> tested))"
    by (auto simp: returned_getIntersects split: option.splits)
  from f assms(2) have "i \<in> set (fst (intersectObjects T
      \<lparr>ray = unproject T (mouse s) cam, rc_camera = Some cam\<rparr> tested))"
    by simp
  then have "object i \<in> set tested" by (rule object_intersectObjects)
  with sc show ?thesis by simp
qed

lemma interactable_scene_child:
  assumes "ob \<in> set scene_children" and "isInteractable ob"
  shows "ob \<in> populate_mesh ` set objectsData"
proof -
  from assms have "ob \<in> set (filter isInteractable scene_children)" by simp
  then show ?thesis by (simp add: filter_isInteractable_scene_children)
qed

lemma step_selection:
  assumes "scene s = None \<or> scene s = Some scene_children"
    and "selectedObject s \<in> insert None ((\<lambda>obj. Some (mesh_userData obj)) ` set objectsData)"
  shows "(scene (after (step T ev s)) = None \<or> scene (after (step T ev s)) = Some scene_children)
       \<and> selectedObject (after (step T ev s))
           \<in> insert None ((\<lambda>obj. Some (mesh_userData obj)) ` set objectsData)"
proof (cases ev)
  case (Mounted b w h p)
  then show ?thesis using assms
    by (cases b) (simp_all add: onMounted_bound onMounted_unbound)
next
  case Unmounted
  then show ?thesis using assms by (simp add: onUnmounted_def Let_def)
next
  case (Resize w h)
  then show ?thesis using assms
    by (auto simp: handleResize_def split: option.splits)
next
  case (MouseMove clientX clientY r)
  show ?thesis
  proof (cases "listening s \<and> container s")
    case True
    from after_onPointerMove [of s T clientX clientY r] True obtain rc cu where
      "after (onPointerMove T clientX clientY r s) =
         s\<lparr>mouse := toNormalizedCoordinates T clientX clientY r, raycaster := rc, cursor := cu\<rparr>"
      by blast
    with True MouseMove assms show ?thesis by simp
  next
    case False
    with MouseMove assms show ?thesis by (auto simp: onPointerMove_def)
  qed
next
  case (Click clientX clientY r)
  from after_onClick [of T s] obtain rc sel where
    a: "after (onClick T s) = s\<lparr>raycaster := rc, selectedObject := sel\<rparr>" by blast
  have "selectedObject (after (onClick T s))
          \<in> insert None ((\<lambda>obj. Some (mesh_userData obj)) ` set objectsData)"
  proof (cases "returned (getIntersects T s)")
    case None
    with assms(2) show ?thesis by (simp add: selectedObject_after_onClick)
  next
    case (Some v)
    obtain "is" tested where v: "v = (is, tested)" by (cases v)
    show ?thesis
    proof (cases "is")
      case Nil
      with Some v show ?thesis by (simp add: selectedObject_after_onClick)
    next
      case (Cons i rest)
      from Some v have g: "returned (getIntersects T s) = Some (is, tested)" by simp
      from getIntersects_hits_from_scene [OF g, of i] Cons assms(1)
      have "object i \<in> set scene_children" by auto
      moreover have "isInteractable (object i)"
        using getIntersects_hits_interactable [OF g, of i] Cons by simp
      ultimately obtain obj where "obj \<in> set objectsData" and "object i = populate_mesh obj"
        using interactable_scene_child by blast
      with Some v Cons show ?thesis by (simp add: selectedObject_after_onClick)
    qed
  qed
  with Click assms a show ?thesis by (cases "listening s") simp_all
next
  case (Frame p)
  then show ?thesis using assms by (simp add: animate_def)
qed

lemma run_selection:
  "(scene (run T evs (state0 T)) = None \<or> scene (run T evs (state0 T)) = Some scene_children)
   \<and> selectedObject (run T evs (state0 T))
       \<in> insert None ((\<lambda>obj. Some (mesh_userData obj)) ` set objectsData)"
proof (induction evs rule: rev_induct)
  case Nil
  then show ?case by (simp add: run_def state0_def)
next
  case (snoc ev evs)
  then show ?case unfolding run_snoc by (intro step_selection) simp_all
qed

text \<open>
  C10. After every sequence of events the selection is empty or is the \<open>userData\<close> that
  \<open>populateObjects\<close> stored on the mesh of one of the four objects of \<open>objectsData\<close>: the
  properties of the template followed by \<open>isInteractable: true\<close>. It is never the (empty)
  \<open>userData\<close> of the floor or of a wall.
\<close>

theorem selection_is_object_metadata:
  "selectedObject (run T evs (state0 T))
     \<in> insert None
         ((\<lambda>obj. Some (spread obj @ [(''isInteractable'', JBool True)])) ` set objectsData)
   \<and> length objectsData = 4
   \<and> selectedObject (run T evs (state0 T))
       \<notin> {userData floor_mesh, userData backWall, userData leftWall}"
proof -
  have s: "selectedObject (run T evs (state0 T))
     \<in> insert None
         ((\<lambda>obj. Some (spread obj @ [(''isInteractable'', JBool True)])) ` set objectsData)"
    using run_selection [of T evs] by (simp add: mesh_userData_def)
  have room: "userData floor_mesh = Some []" "userData backWall = Some []" "userData leftWall = Some []"
    by (simp_all add: floor_mesh_def backWall_def leftWall_def object3d_default_def)
  have "length objectsData = 4" by (simp add: objectsData_def)
  with s room show ?thesis by auto
qed

subsection \<open>The pointer sample\<close>

lemma last_sample_snoc: "last_sample T (evs @ [ev]) = sample_of T (last_sample T evs) ev"
  by (simp add: last_sample_def)

lemma step_mounted:
  assumes "\<not> lifecycle ev"
    and "listening s" and "container s" and "scene s = Some ch" and "camera s \<noteq> None"
  shows "listening (after (step T ev s)) \<and> container (after (step T ev s))
       \<and> scene (after (step T ev s)) = Some ch \<and> camera (after (step T ev s)) \<noteq> None
       \<and> mouse (after (step T ev s)) = sample_of T (mouse s) ev"
proof (cases ev)
  case (Resize w h)
  then show ?thesis using assms by (auto simp: handleResize_def split: option.splits)
next
  case (MouseMove clientX clientY r)
  from after_onPointerMove [OF assms(3), of T clientX clientY r] obtain rc cu where
    "after (onPointerMove T clientX clientY r s) =
       s\<lparr>mouse := toNormalizedCoordinates T clientX clientY r, raycaster := rc, cursor := cu\<rparr>"
    by blast
  with MouseMove assms show ?thesis by simp
next
  case (Click clientX clientY r)
  from after_onClick [of T s] obtain rc sel where
    "after (onClick T s) = s\<lparr>raycaster := rc, selectedObject := sel\<rparr>" by blast
  with Click assms show ?thesis by simp
next
  case (Frame p)
  then show ?thesis using assms by (auto simp: animate_def)
qed (use assms(1) in simp_all)

lemma run_mounted:
  assumes "\<forall>ev\<in>set evs. \<not> lifecycle ev"
  shows "listening (run T (Mounted True w h p # evs) (state0 T))
       \<and> container (run T (Mounted True w h p # evs) (state0 T))
       \<and> scene (run T (Mounted True w h p # evs) (state0 T)) = Some scene_children
       \<and> camera (run T (Mounted True w h p # evs) (state0 T)) \<noteq> None
       \<and> mouse (run T (Mounted True w h p # evs) (state0 T)) = last_sample T evs"
  using assms
proof (induction evs rule: rev_induct)
  case Nil
  then show ?case by (simp add: run_def state0_def onMounted_bound last_sample_def)
next
  case (snoc ev evs)
  then have ev: "\<not> lifecycle ev" and IH:
    "listening (run T (Mounted True w h p # evs) (state0 T))
       \<and> container (run T (Mounted True w h p # evs) (state0 T))
       \<and> scene (run T (Mounted True w h p # evs) (state0 T)) = Some scene_children
       \<and> camera (run T (Mounted True w h p # evs) (state0 T)) \<noteq> None
       \<and> mouse (run T (Mounted True w h p # evs) (state0 T)) = last_sample T evs"
    by simp_all
  have "run T (Mounted True w h p # evs @ [ev]) (state0 T) =
          after (step T ev (run T (Mounted True w h p # evs) (state0 T)))"
    using run_snoc [of T "Mounted True w h p # evs" ev] by simp
  with step_mounted [OF ev, of "run T (Mounted True w h p # evs) (state0 T)" scene_children T] IH
  show ?case by (simp add: last_sample_snoc)
qed

text \<open>
  C1, as the code has it. \<open>onClick\<close> takes no event. While the component is mounted, the
  pick of a click uses the sample stored in \<open>mouse\<close>, which is the sample of the most recent
  mousemove (of a fresh vector, (0, 0), when there has been none): the ray it casts is the one
  unprojected from that sample, the selection it commits is the pick at that sample, and the
  position of the click itself has no influence.
\<close>

theorem onClick_uses_stored_sample:
  assumes "\<forall>ev\<in>set evs. \<not> lifecycle ev"
  shows "\<exists>cam. camera (run T (Mounted True w h p # evs) (state0 T)) = Some cam
       \<and> mouse (run T (Mounted True w h p # evs) (state0 T)) = last_sample T evs
       \<and> raycaster (after (step T (Click clientX clientY r) (run T (Mounted True w h p # evs) (state0 T))))
           = \<lparr>ray = unproject T (last_sample T evs) cam, rc_camera = Some cam\<rparr>
       \<and> selectedObject (after (step T (Click clientX clientY r) (run T (Mounted True w h p # evs) (state0 T))))
           = (case filter (\<lambda>i. isInteractable (object i))
                    (fst (intersectObjects T \<lparr>ray = unproject T (last_sample T evs) cam, rc_camera = Some cam\<rparr>
                            scene_children)) of
                [] \<Rightarrow> None
              | i # rest \<Rightarrow> userData (object i))
       \<and> step T (Click clientX clientY r) (run T (Mounted True w h p # evs) (state0 T))
           = step T (Click clientX' clientY' r') (run T (Mounted True w h p # evs) (state0 T))"
proof -
  let ?s = "run T (Mounted True w h p # evs) (state0 T)"
  from run_mounted [OF assms, of T w h p]
  obtain cam where l: "listening ?s" and sc: "scene ?s = Some scene_children"
    and c: "camera ?s = Some cam" and m: "mouse ?s = last_sample T evs"
    by auto
  let ?rc = "\<lparr>ray = unproject T (last_sample T evs) cam, rc_camera = Some cam\<rparr>"
  let ?is = "filter (\<lambda>i. isInteractable (object i)) (fst (intersectObjects T ?rc scene_children))"
  have g: "getIntersects T ?s = Returned (?is, scene_children) (?s\<lparr>raycaster := ?rc\<rparr>)"
    using getIntersects_defined [OF c sc, of T] m by (simp add: setFromCamera_fresh)
  then have r: "returned (getIntersects T ?s) = Some (?is, scene_children)" by simp
  have sel: "selectedObject (after (onClick T ?s)) =
               (case ?is of [] \<Rightarrow> None | i # rest \<Rightarrow> userData (object i))"
    by (rule onClick_selectedObject(1) [OF r])
  have "raycaster (after (onClick T ?s)) = ?rc"
    using g by (auto simp: onClick_def split: list.splits)
  with l c m sel show ?thesis by simp
qed

theorem onClick_uses_stored_sample_witness:
  "\<not> lifecycle (MouseMove 0 600 rect0)
   \<and> last_sample z_host [MouseMove 0 600 rect0] = (Some (- 1), Some (- 1))
   \<and> (\<exists>cam. camera (run z_host [Mounted True 1200 600 front_view, MouseMove 0 600 rect0] (state0 z_host))
               = Some cam
        \<and> raycaster (after (step z_host (Click 400 300 rect0)
               (run z_host [Mounted True 1200 600 front_view, MouseMove 0 600 rect0] (state0 z_host))))
            = \<lparr>ray = unproject z_host (Some (- 1), Some (- 1)) cam, rc_camera = Some cam\<rparr>)"
proof -
  have h: "\<forall>ev\<in>set [MouseMove 0 600 rect0]. \<not> lifecycle ev" by simp
  have ls: "last_sample z_host [MouseMove 0 600 rect0] = (Some (- 1), Some (- 1))"
    by (simp add: last_sample_def toNormalizedCoordinates_def jsdiv_def rect0_def)
  from onClick_uses_stored_sample [OF h, of z_host 1200 600 front_view 400 300 rect0 400 300 rect0] ls
  show ?thesis by auto
qed

lemma moved_state:
  "\<exists>rc cu. run z_host [Mounted True 1200 600 front_view, MouseMove 0 600 rect0] (state0 z_host) =
     (mounted_state front_view)\<lparr>mouse := (Some (- 1), Some (- 1)), raycaster := rc, cursor := cu\<rparr>"
proof -
  have c: "container (mounted_state front_view)" and l: "listening (mounted_state front_view)"
    by (simp_all add: mounted_state_eq)
  have n: "toNormalizedCoordinates z_host 0 600 rect0 = (Some (- 1), Some (- 1))"
    by (simp add: toNormalizedCoordinates_def jsdiv_def rect0_def)
  have "run z_host [Mounted True 1200 600 front_view, MouseMove 0 600 rect0] (state0 z_host) =
          after (step z_host (MouseMove 0 600 rect0) (mounted_state front_view))"
    by (simp add: run_def mounted_state_def)
  with after_onPointerMove [OF c, of z_host 0 600 rect0] l n show ?thesis by simp
qed

theorem onClick_own_sample_counterexample:
  "toNormalizedCoordinates z_host 400 300 rect0 = (Some 0, Some 0)
   \<and> selectedObject (after (step z_host (Click 400 300 rect0)
        (run z_host [Mounted True 1200 600 front_view, MouseMove 0 600 rect0] (state0 z_host)))) = None
   \<and> selectedObject (after (onClick z_host
        ((run z_host [Mounted True 1200 600 front_view, MouseMove 0 600 rect0] (state0 z_host))
           \<lparr>mouse := toNormalizedCoordinates z_host 400 300 rect0\<rparr>))) = Some (mesh_userData (objectsData ! 1))"
proof -
  let ?s1 = "run z_host [Mounted True 1200 600 front_view, MouseMove 0 600 rect0] (state0 z_host)"
  from moved_state obtain rc cu where
    s1: "?s1 = (mounted_state front_view)\<lparr>mouse := (Some (- 1), Some (- 1)), raycaster := rc, cursor := cu\<rparr>"
    by blast
  have n: "toNormalizedCoordinates z_host 400 300 rect0 = (Some 0, Some 0)"
    by (simp add: toNormalizedCoordinates_def jsdiv_def rect0_def)
  have l: "listening ?s1" by (simp add: s1 mounted_state_eq)
  have miss: "returned (getIntersects z_host ?s1) = Some ([], scene_children)"
    by (rule returned_getIntersects_below) (simp_all add: s1 mounted_state_eq)
  have hit: "returned (getIntersects z_host (?s1\<lparr>mouse := (Some 0, Some 0)\<rparr>)) =
           Some ([\<lparr>distance = 31 / 10, object = populate_mesh (objectsData ! 1)\<rparr>,
                  \<lparr>distance = 17 / 4, object = populate_mesh (objectsData ! 0)\<rparr>],
                 scene_children)"
    by (rule returned_getIntersects_front) (simp_all add: s1 mounted_state_eq)
  from onClick_selectedObject(1) [OF miss] onClick_selectedObject(1) [OF hit] l n
  show ?thesis by simp
qed

text \<open>
  C6, as the code has it. The conversion reads the pixel and the rectangle only, and a resize
  leaves the stored sample untouched. So around a resize the samples of one pixel differ only
  if the rectangle changed; the aspect ratio does not enter. A changed rectangle (and a
  changed aspect ratio) need not change them.
\<close>

theorem resize_sample_differs_only_with_rect:
  assumes "listening s" and "container s"
  shows "mouse (after (step T (Resize w h) s)) = mouse s
       \<and> mouse (after (step T (MouseMove px py r1) s)) = toNormalizedCoordinates T px py r1
       \<and> mouse (after (step T (MouseMove px py r2) (after (step T (Resize w h) s))))
           = toNormalizedCoordinates T px py r2
       \<and> (mouse (after (step T (MouseMove px py r1) s))
            \<noteq> mouse (after (step T (MouseMove px py r2) (after (step T (Resize w h) s))))
          \<longrightarrow> r1 \<noteq> r2)"
proof -
  have rs: "listening (after (step T (Resize w h) s))" "container (after (step T (Resize w h) s))"
    "mouse (after (step T (Resize w h) s)) = mouse s"
    using assms by (auto simp: handleResize_def split: option.splits)
  have m: "mouse (after (step T (MouseMove px py r) s')) = toNormalizedCoordinates T px py r"
    if "listening s'" "container s'" for s' r
    using that by (simp add: onPointerMove_def)
  have before: "mouse (after (step T (MouseMove px py r1) s)) = toNormalizedCoordinates T px py r1"
    by (rule m [OF assms])
  have afterw: "mouse (after (step T (MouseMove px py r2) (after (step T (Resize w h) s))))
      = toNormalizedCoordinates T px py r2"
    by (rule m [OF rs(1,2)])
  show ?thesis using before afterw rs(3) by auto
qed

theorem resize_sample_differs_only_with_rect_witness:
  "listening (mounted_state front_view) \<and> container (mounted_state front_view)
   \<and> mouse (after (step z_host (MouseMove 200 150 rect0) (mounted_state front_view)))
       = (Some (- 1 / 2), Some (1 / 2))
   \<and> mouse (after (step z_host (MouseMove 200 150 (rect0\<lparr>rect_width := 400\<rparr>))
         (after (step z_host (Resize 600 600) (mounted_state front_view)))))
       = (Some 0, Some (1 / 2))
   \<and> rect0 \<noteq> rect0\<lparr>rect_width := 400\<rparr>"
proof -
  have h: "listening (mounted_state front_view)" "container (mounted_state front_view)"
    by (simp_all add: mounted_state_eq)
  have a: "toNormalizedCoordinates z_host 200 150 rect0 = (Some (- 1 / 2), Some (1 / 2))"
    by (simp add: toNormalizedCoordinates_def jsdiv_def rect0_def)
  have b: "toNormalizedCoordinates z_host 200 150 (rect0\<lparr>rect_width := 400\<rparr>) = (Some 0, Some (1 / 2))"
    by (simp add: toNormalizedCoordinates_def jsdiv_def rect0_def)
  from resize_sample_differs_only_with_rect
         [OF h, of z_host 600 600 200 150 rect0 "rect0\<lparr>rect_width := 400\<rparr>"]
    h a b show ?thesis by simp
qed

theorem resize_sample_iff_counterexample:
  "rect0 \<noteq> rect0\<lparr>rect_width := 400\<rparr>
   \<and> map_option aspect (camera (mounted_state front_view)) = Some (Some 2)
   \<and> map_option aspect (camera (after (step z_host (Resize 600 600) (mounted_state front_view))))
       = Some (Some 1)
   \<and> mouse (after (step z_host (MouseMove 0 0 rect0) (mounted_state front_view)))
       = (Some (- 1), Some 1)
   \<and> mouse (after (step z_host (MouseMove 0 0 (rect0\<lparr>rect_width := 400\<rparr>))
         (after (step z_host (Resize 600 600) (mounted_state front_view)))))
       = (Some (- 1), Some 1)"
proof -
  have h: "listening (mounted_state front_view)" "container (mounted_state front_view)"
    by (simp_all add: mounted_state_eq)
  have rs: "listening (after (step z_host (Resize 600 600) (mounted_state front_view)))"
    "container (after (step z_host (Resize 600 600) (mounted_state front_view)))"
    by (simp_all add: mounted_state_eq handleResize_def)
  have a: "mouse (after (step z_host (MouseMove 0 0 rect0) (mounted_state front_view)))
       = (Some (- 1), Some 1)"
    using h by (simp add: onPointerMove_def toNormalizedCoordinates_def jsdiv_def rect0_def)
  have b: "mouse (after (step z_host (MouseMove 0 0 (rect0\<lparr>rect_width := 400\<rparr>))
         (after (step z_host (Resize 600 600) (mounted_state front_view)))))
       = (Some (- 1), Some 1)"
    using rs by (simp add: onPointerMove_def toNormalizedCoordinates_def jsdiv_def rect0_def)
  have c: "map_option aspect (camera (after (step z_host (Resize 600 600) (mounted_state front_view))))
       = Some (Some 1)"
    by (simp add: mounted_state_eq handleResize_def updateProjectionMatrix_def jsdiv_def)
  have d: "rect0 \<noteq> rect0\<lparr>rect_width := 400\<rparr>" by (simp add: rect0_def)
  from a b c d show ?thesis by (simp add: mounted_state_eq)
qed

text \<open>A click inside the container after a mousemove outside it (the listener is on the
  window): the pick of the click uses the sample of the mousemove, whose first coordinate is
  2, and not the sample (0, 0) that the position of the click and the rectangle would give.\<close>

theorem click_sample_out_of_range_counterexample:
  "rect_left rect0 \<le> 400 \<and> 400 \<le> rect_left rect0 + rect_width rect0
   \<and> rect_top rect0 \<le> 300 \<and> 300 \<le> rect_top rect0 + rect_height rect0
   \<and> toNormalizedCoordinates z_host 400 300 rect0 = (Some 0, Some 0)
   \<and> mouse (after (step z_host (Click 400 300 rect0)
        (run z_host [Mounted True 1200 600 front_view, MouseMove 1200 300 rect0] (state0 z_host))))
       = (Some 2, Some 0)
   \<and> ray (raycaster (after (step z_host (Click 400 300 rect0)
        (run z_host [Mounted True 1200 600 front_view, MouseMove 1200 300 rect0] (state0 z_host)))))
       = Some ((2, 1 / 2, 5), - 1)"
proof -
  let ?s1 = "run z_host [Mounted True 1200 600 front_view, MouseMove 1200 300 rect0] (state0 z_host)"
  have c: "container (mounted_state front_view)" and l: "listening (mounted_state front_view)"
    by (simp_all add: mounted_state_eq)
  have n: "toNormalizedCoordinates z_host 1200 300 rect0 = (Some 2, Some 0)"
    "toNormalizedCoordinates z_host 400 300 rect0 = (Some 0, Some 0)"
    by (simp_all add: toNormalizedCoordinates_def jsdiv_def rect0_def)
  have "?s1 = after (step z_host (MouseMove 1200 300 rect0) (mounted_state front_view))"
    by (simp add: run_def mounted_state_def)
  with after_onPointerMove [OF c, of z_host 1200 300 rect0] l n obtain rc cu where
    s1: "?s1 = (mounted_state front_view)\<lparr>mouse := (Some 2, Some 0), raycaster := rc, cursor := cu\<rparr>"
    by auto
  have cam: "camera ?s1 = camera (mounted_state front_view)"
    and sc: "scene ?s1 = Some scene_children" and m: "mouse ?s1 = (Some 2, Some 0)"
    and ls: "listening ?s1"
    by (simp_all add: s1 mounted_state_eq)
  obtain cm where cm: "camera ?s1 = Some cm" "cam_position cm = (0, 1 / 2, 5)"
    "quaternion cm = (0, 0, 0, 1)"
    using cam by (simp add: mounted_state_eq front_view_def)
  from getIntersects_defined [OF cm(1) sc, of z_host]
  have g: "after (getIntersects z_host ?s1) =
             ?s1\<lparr>raycaster := setFromCamera z_host (mouse ?s1) cm (raycaster ?s1)\<rparr>"
    by simp
  from after_onClick [of z_host ?s1] obtain rc' sel where
    a: "after (onClick z_host ?s1) = ?s1\<lparr>raycaster := rc', selectedObject := sel\<rparr>" by blast
  have r: "raycaster (after (onClick z_host ?s1)) = setFromCamera z_host (mouse ?s1) cm (raycaster ?s1)"
    using getIntersects_defined [OF cm(1) sc, of z_host]
    by (auto simp: onClick_def split: list.splits)
  have "ray (raycaster (after (onClick z_host ?s1))) = Some ((2, 1 / 2, 5), - 1)"
    unfolding r using cm(2,3) m
    by (simp add: setFromCamera_def z_host_def z_unproject_def)
  moreover have "mouse (after (onClick z_host ?s1)) = (Some 2, Some 0)"
    using a m by simp
  ultimately show ?thesis using ls n(2) by (simp add: rect0_def)
qed

subsection \<open>The nearest hit\<close>

lemma set_intersectObjects:
  "set (fst (intersectObjects T rc objs)) = (\<Union>ob\<in>set objs. set (intersectObject T rc ob))"
  by (simp add: intersectObjects_def)

lemma sorted_filtered_hits:
  "sorted (map distance (filter P (fst (intersectObjects T rc objs))))"
  by (simp add: intersectObjects_def sorted_filter)

lemma first_hit_nearest:
  assumes "filter P (fst (intersectObjects T rc objs)) = i # rest"
    and "j \<in> set (fst (intersectObjects T rc objs))" and "P j"
  shows "distance i \<le> distance j"
proof -
  from assms(2,3) have "j \<in> set (filter P (fst (intersectObjects T rc objs)))" by simp
  with assms(1) have j: "j = i \<or> j \<in> set rest" by simp
  from sorted_filtered_hits [of P T rc objs] assms(1)
  have "\<forall>k\<in>set rest. distance i \<le> distance k" by simp
  with j show ?thesis by auto
qed

lemma first_hit_any_order:
  assumes "camera s = Some cam" and "scene s = Some ch" and "mset ch' = mset ch"
    and "j \<in> set (fst (intersectObjects T (setFromCamera T (mouse s) cam (raycaster s)) ch))"
    and "isInteractable (object j)"
  shows "\<exists>i rest i' rest'.
           returned (getIntersects T s) = Some (i # rest, ch)
         \<and> returned (getIntersects T (s\<lparr>scene := Some ch'\<rparr>)) = Some (i' # rest', ch')
         \<and> i \<in> set (fst (intersectObjects T (setFromCamera T (mouse s) cam (raycaster s)) ch))
         \<and> i' \<in> set (fst (intersectObjects T (setFromCamera T (mouse s) cam (raycaster s)) ch))
         \<and> isInteractable (object i) \<and> isInteractable (object i')
         \<and> (\<forall>k\<in>set (fst (intersectObjects T (setFromCamera T (mouse s) cam (raycaster s)) ch)).
               isInteractable (object k) \<longrightarrow> distance i \<le> distance k)
         \<and> distance i' = distance i"
proof -
  let ?rc = "setFromCamera T (mouse s) cam (raycaster s)"
  let ?P = "\<lambda>i. isInteractable (object i)"
  let ?H = "fst (intersectObjects T ?rc ch)"
  let ?H' = "fst (intersectObjects T ?rc ch')"
  have r: "returned (getIntersects T s) = Some (filter ?P ?H, ch)"
    using getIntersects_defined [OF assms(1,2), of T] by simp
  have r': "returned (getIntersects T (s\<lparr>scene := Some ch'\<rparr>)) = Some (filter ?P ?H', ch')"
    using getIntersects_defined [of "s\<lparr>scene := Some ch'\<rparr>" cam ch' T] assms(1) by simp
  have "set ch' = set ch" using assms(3) by (rule mset_eq_setD)
  then have sH: "set ?H' = set ?H" by (simp add: set_intersectObjects)
  from assms(4,5) have "j \<in> set (filter ?P ?H)" by simp
  then obtain i rest where f: "filter ?P ?H = i # rest"
    by (cases "filter ?P ?H") auto
  then have "i \<in> set (filter ?P ?H)" by simp
  then have iH: "i \<in> set ?H" and iP: "?P i" by simp_all
  have near: "\<forall>k\<in>set ?H. ?P k \<longrightarrow> distance i \<le> distance k"
    using first_hit_nearest [OF f] by blast
  from sH iH iP have "i \<in> set (filter ?P ?H')" by simp
  then obtain i' rest' where f': "filter ?P ?H' = i' # rest'"
    by (cases "filter ?P ?H'") auto
  then have "i' \<in> set (filter ?P ?H')" by simp
  then have i'H: "i' \<in> set ?H" and i'P: "?P i'" using sH by simp_all
  have "distance i \<le> distance i'" using near i'H i'P by blast
  moreover have "distance i' \<le> distance i"
    using first_hit_nearest [OF f', of i] sH iH iP by simp
  ultimately have d: "distance i' = distance i" by simp
  from r f have g: "returned (getIntersects T s) = Some (i # rest, ch)" by simp
  from r' f' have g': "returned (getIntersects T (s\<lparr>scene := Some ch'\<rparr>)) = Some (i' # rest', ch')"
    by simp
  show ?thesis
    apply (rule exI [of _ i], rule exI [of _ rest], rule exI [of _ i'], rule exI [of _ rest'])
    apply (intro conjI)
           apply (fact g, fact g', fact iH, fact i'H, fact iP, fact i'P, fact near, fact d)
    done
qed


lemma hits_front_rev:
  "fst (intersectObjects z_host \<lparr>ray = Some ((0, 1 / 2, 5), - 1), rc_camera = c\<rparr> (rev scene_children)) =
     [\<lparr>distance = 31 / 10, object = populate_mesh (objectsData ! 1)\<rparr>,
      \<lparr>distance = 17 / 4, object = populate_mesh (objectsData ! 0)\<rparr>,
      \<lparr>distance = 10, object = backWall\<rparr>]"
  by (simp add: intersectObjects_def intersectObject_def scene_children_def z_host_def z_defs obj_defs Let_def power2_eq_square)


lemma z_raycast_boxes:
  assumes "dz = 1 \<or> dz = - 1"
  shows "d \<in> set (z_raycast \<lparr>ray = Some ((ox, oy, oz), dz), rc_camera = c\<rparr> (populate_mesh (objectsData ! 0)))
           \<Longrightarrow> d * dz + oz = - (3 / 4) * dz"
    and "d \<in> set (z_raycast \<lparr>ray = Some ((ox, oy, oz), dz), rc_camera = c\<rparr> (populate_mesh (objectsData ! 1)))
           \<Longrightarrow> d * dz + oz = 3 / 2 - (2 / 5) * dz"
    and "d \<in> set (z_raycast \<lparr>ray = Some ((ox, oy, oz), dz), rc_camera = c\<rparr> (populate_mesh (objectsData ! 3)))
           \<Longrightarrow> d * dz + oz = - 2 - (1 / 4) * dz"
  using assms
  by (auto simp: z_defs obj_defs Let_def split: if_splits)

lemma z_raycast_lamp:
  assumes "dz = 1 \<or> dz = - 1"
    and "d \<in> set (z_raycast \<lparr>ray = Some ((ox, oy, oz), dz), rc_camera = c\<rparr> (populate_mesh (objectsData ! 2)))"
  shows "\<exists>t. 0 \<le> t \<and> t \<le> 1 \<and> d * dz + oz = - (1 / 5) - (3 / 10) * dz * t"
proof -
  define q where "q = 1 - ((ox - 6 / 5) / (3 / 10))\<^sup>2 - ((oy - 9 / 5) / (3 / 10))\<^sup>2"
  from assms(2) have c: "((ox - 6 / 5) / (3 / 10))\<^sup>2 + ((oy - 9 / 5) / (3 / 10))\<^sup>2 \<le> 1"
    and d: "d = (- (1 / 5) - dz * (3 / 10 * sqrt q) - oz) * dz"
    by (auto simp: z_defs obj_defs Let_def q_def split: if_splits)
  from c have "0 \<le> q" "q \<le> 1" by (simp_all add: q_def)
  then have "0 \<le> sqrt q" "sqrt q \<le> 1" by simp_all
  moreover have "d * dz + oz = - (1 / 5) - (3 / 10) * dz * sqrt q"
    using assms(1) d by (auto simp: algebra_simps)
  ultimately show ?thesis by blast
qed

lemma objectsData_cases:
  "obj \<in> set objectsData \<Longrightarrow>
   obj = objectsData ! 0 \<or> obj = objectsData ! 1 \<or> obj = objectsData ! 2 \<or> obj = objectsData ! 3"
  by (auto simp: objectsData_def)

lemma z_scene_hit:
  assumes "dz = 1 \<or> dz = - 1"
    and "a \<in> set (fst (intersectObjects z_host \<lparr>ray = Some ((ox, oy, oz), dz), rc_camera = c\<rparr> scene_children))"
    and "isInteractable (object a)"
  shows "(object a = populate_mesh (objectsData ! 0) \<and> distance a * dz + oz = - (3 / 4) * dz)
       \<or> (object a = populate_mesh (objectsData ! 1) \<and> distance a * dz + oz = 3 / 2 - (2 / 5) * dz)
       \<or> (object a = populate_mesh (objectsData ! 2)
            \<and> (\<exists>t. 0 \<le> t \<and> t \<le> 1 \<and> distance a * dz + oz = - (1 / 5) - (3 / 10) * dz * t))
       \<or> (object a = populate_mesh (objectsData ! 3) \<and> distance a * dz + oz = - 2 - (1 / 4) * dz)"
proof -
  let ?rc = "\<lparr>ray = Some ((ox, oy, oz), dz), rc_camera = c\<rparr>"
  from assms(2) have "object a \<in> set scene_children" by (rule object_intersectObjects)
  with assms(3) obtain obj where obj: "obj \<in> set objectsData" "object a = populate_mesh obj"
    using interactable_scene_child by blast
  from assms(2) have d: "distance a \<in> set (z_raycast ?rc (object a))"
    by (auto simp: set_intersectObjects intersectObject_def z_host_def)
  from objectsData_cases [OF obj(1)] show ?thesis
  proof (elim disjE)
    assume "obj = objectsData ! 0"
    with obj d z_raycast_boxes(1) [OF assms(1)] show ?thesis by simp
  next
    assume "obj = objectsData ! 1"
    with obj d z_raycast_boxes(2) [OF assms(1)] show ?thesis by simp
  next
    assume "obj = objectsData ! 2"
    with obj d z_raycast_lamp [OF assms(1)] show ?thesis by simp
  next
    assume "obj = objectsData ! 3"
    with obj d z_raycast_boxes(3) [OF assms(1)] show ?thesis by simp
  qed
qed

text \<open>With this raycaster no ray meets two of the four objects at the same distance.\<close>

lemma z_scene_distinct_distances:
  assumes "a \<in> set (fst (intersectObjects z_host \<lparr>ray = z_unproject coords cam, rc_camera = c\<rparr> scene_children))"
    and "b \<in> set (fst (intersectObjects z_host \<lparr>ray = z_unproject coords cam, rc_camera = c\<rparr> scene_children))"
    and "isInteractable (object a)" and "isInteractable (object b)"
    and "distance a = distance b"
  shows "object a = object b"
proof (cases "z_unproject coords cam")
  case None
  with assms(1) show ?thesis
    by (simp add: set_intersectObjects intersectObject_def z_host_def z_raycast_def)
next
  case (Some r)
  then obtain ox oy oz dz where r: "r = ((ox, oy, oz), dz)" and dz: "dz = 1 \<or> dz = - 1"
    by (cases r) (auto simp: z_unproject_def split: option.splits prod.splits if_splits)
  note ha = z_scene_hit [OF dz, of a ox oy oz c] and hb = z_scene_hit [OF dz, of b ox oy oz c]
  from assms(1,3) Some r have A:
    "(object a = populate_mesh (objectsData ! 0) \<and> distance a * dz + oz = - (3 / 4) * dz)
       \<or> (object a = populate_mesh (objectsData ! 1) \<and> distance a * dz + oz = 3 / 2 - (2 / 5) * dz)
       \<or> (object a = populate_mesh (objectsData ! 2)
            \<and> (\<exists>t. 0 \<le> t \<and> t \<le> 1 \<and> distance a * dz + oz = - (1 / 5) - (3 / 10) * dz * t))
       \<or> (object a = populate_mesh (objectsData ! 3) \<and> distance a * dz + oz = - 2 - (1 / 4) * dz)"
    by (intro ha) simp_all
  from assms(2,4) Some r have B:
    "(object b = populate_mesh (objectsData ! 0) \<and> distance b * dz + oz = - (3 / 4) * dz)
       \<or> (object b = populate_mesh (objectsData ! 1) \<and> distance b * dz + oz = 3 / 2 - (2 / 5) * dz)
       \<or> (object b = populate_mesh (objectsData ! 2)
            \<and> (\<exists>t. 0 \<le> t \<and> t \<le> 1 \<and> distance b * dz + oz = - (1 / 5) - (3 / 10) * dz * t))
       \<or> (object b = populate_mesh (objectsData ! 3) \<and> distance b * dz + oz = - 2 - (1 / 4) * dz)"
    by (intro hb) simp_all
  from dz show ?thesis
  proof
    assume "dz = 1"
    with A B assms(5) show ?thesis by (elim disjE conjE exE) simp_all
  next
    assume "dz = - 1"
    with A B assms(5) show ?thesis by (elim disjE conjE exE) simp_all
  qed
qed

text \<open>So with this raycaster the first hit on the scene is the same for every reordering of
  its children, whatever the pointer sample and the camera.\<close>

lemma z_scene_first_hit_any_order:
  assumes "camera s = Some cam" and "scene s = Some scene_children"
    and "mset ch' = mset scene_children"
    and "returned (getIntersects z_host s) = Some (i # rest, tested)"
  shows "\<exists>rest'. returned (getIntersects z_host (s\<lparr>scene := Some ch'\<rparr>)) = Some (i # rest', ch')"
proof -
  define rc where "rc = setFromCamera z_host (mouse s) cam (raycaster s)"
  define H where "H = fst (intersectObjects z_host rc scene_children)"
  have rc: "rc = \<lparr>ray = z_unproject (mouse s) cam, rc_camera = Some cam\<rparr>"
    by (simp add: rc_def setFromCamera_fresh z_host_def)
  have "returned (getIntersects z_host s) = Some (filter (\<lambda>i. isInteractable (object i)) H, scene_children)"
    using getIntersects_defined [OF assms(1,2), of z_host] by (simp add: H_def rc_def)
  with assms(4) have "filter (\<lambda>i. isInteractable (object i)) H = i # rest" by simp
  then have "i \<in> set (filter (\<lambda>i. isInteractable (object i)) H)" by simp
  then have iH: "i \<in> set H" and iP: "isInteractable (object i)" by simp_all
  have "\<exists>i0 rest0 i' rest'.
           returned (getIntersects z_host s) = Some (i0 # rest0, scene_children)
         \<and> returned (getIntersects z_host (s\<lparr>scene := Some ch'\<rparr>)) = Some (i' # rest', ch')
         \<and> i0 \<in> set H \<and> i' \<in> set H
         \<and> isInteractable (object i0) \<and> isInteractable (object i')
         \<and> (\<forall>k\<in>set H. isInteractable (object k) \<longrightarrow> distance i0 \<le> distance k)
         \<and> distance i' = distance i0"
    unfolding H_def rc_def
    by (rule first_hit_any_order [OF assms(1,2,3)]) (use iH iP in \<open>simp_all add: H_def rc_def\<close>)
  then obtain i0 rest0 i' rest' where
    g0: "returned (getIntersects z_host s) = Some (i0 # rest0, scene_children)"
    and g': "returned (getIntersects z_host (s\<lparr>scene := Some ch'\<rparr>)) = Some (i' # rest', ch')"
    and i'H: "i' \<in> set H" and i'P: "isInteractable (object i')"
    and d0: "distance i' = distance i0"
    by (elim exE conjE) (rule that; assumption)
  from g0 assms(4) have "i0 = i" by simp
  with d0 have d: "distance i' = distance i" by simp
  have "object i' = object i"
    using i'H iH i'P iP d unfolding H_def rc
    by (rule z_scene_distinct_distances)
  with d have "i' = i" by simp
  with g' show ?thesis by blast
qed

end
